theory Spec2Isabelle
  imports Complex_Main "HOL-Library.AList"
begin

section \<open>The socket provider of HomeSM: data model\<close>

text \<open>
  The development embeds \<^verbatim>\<open>SocketProvider\<close> (the React context that owns the
  socket.io connection, the two subscriber sets and the unread counter) as explicit state
  passing. A handler takes the provider's state and returns how it completed together with
  the state it left behind. Everything the handlers do to the outside world (callbacks
  invoked, wire events emitted, alerts, notifications, error and warning output) is
  appended to the \<open>trace\<close> of the state, in program order.

  Boundaries of the model.
  \<^item> A subscriber callback is consumer code. It is represented by an identifier (the
    function reference that the JavaScript \<^verbatim>\<open>Set\<close> compares) and by its outcome: for a
    given payload it returns or throws. Calls back into the provider from
    inside a callback are outside the model.
  \<^item> \<^verbatim>\<open>console.log\<close> output is not recorded; \<^verbatim>\<open>console.warn\<close> and \<^verbatim>\<open>console.error\<close> are.
  \<^item> An \<^verbatim>\<open>async\<close> handler is run to completion in one step, with the outcome of every
    awaited promise supplied by the environment.
  \<^item> Timers are kept in the state with their due time on a logical millisecond clock.
\<close>

subsection \<open>JavaScript values and payloads\<close>

datatype jsval = JUndefined | JNull | JBool bool | JNum int | JStr string

text \<open>An object literal: its own properties in insertion order.\<close>

type_synonym js_object = "(string \<times> jsval) list"

text \<open>The argument of a call event: \<open>None\<close> is an event that carries no argument
  (\<^verbatim>\<open>undefined\<close>), \<open>Some obj\<close> the object the server sent.\<close>

type_synonym call_data = "js_object option"

datatype senderRole = RoleUser | RoleCustomerService

datatype messageType = MtText | MtVoice | MtImage | MtVideo | MtLocation

datatype contentType = CtText | CtVoice | CtImage | CtVideo | CtFile | CtLocation

record Message =
  msg_id :: string
  conversationId :: "string option"
  senderId :: string
  senderRole :: "senderRole option"
  content :: string
  timestamp :: int
  isRead :: "bool option"
  messageType :: "messageType option"
  contentType :: "contentType option"
  voiceDuration :: "string option"
  voiceUrl :: "string option"
  imageUrl :: "string option"
  videoUrl :: "string option"
  videoDuration :: "string option"
  isUploading :: "bool option"
  uploadProgress :: "int option"
  videoWidth :: "int option"
  videoHeight :: "int option"
  aspectRatio :: "real option"
  fileUrl :: "string option"
  localFileUri :: "string option"
  isCallRecord :: "bool option"
  callerId :: "string option"
  callDuration :: "string option"
  missed :: "bool option"
  rejected :: "bool option"
  latitude :: "real option"
  longitude :: "real option"
  locationName :: "string option"
  address :: "string option"

subsection \<open>Exceptions, completions, effects\<close>

datatype exn = Error string

text \<open>How a block of statements ends: it runs off its end, it executes \<^verbatim>\<open>return\<close>, or
  it throws.\<close>

datatype completion = Normal | Returned | Threw exn

text \<open>A callback is identified by its function reference.\<close>

type_synonym cb = nat

datatype platform = Android | IOS

text \<open>The places where the provider writes to \<^verbatim>\<open>console.error\<close> and \<^verbatim>\<open>console.warn\<close>.\<close>

datatype error_site =
    MessageCallbackFailed
  | MicPermissionCheckFailed
  | CallSubscriberFailed nat
  | CallCancelledCallbackFailed
  | SocketConnectError

datatype warn_site = CannotSendMessage | CannotJoinConversation | CannotRejectCall

datatype emit_arg = ArgStr string | ArgObj js_object

text \<open>The options object handed to \<^verbatim>\<open>io\<close>; \<open>auth_token\<close> is \<^verbatim>\<open>auth.token\<close>.\<close>

record io_options =
  auth_token :: string
  transports :: "string list"
  timeout :: nat
  reconnection :: bool
  reconnectionAttempts :: nat
  reconnectionDelay :: nat
  reconnectionDelayMax :: nat
  randomizationFactor :: real
  forceNew :: bool

datatype effect =
    MessageCallback cb Message
  | CallCallback cb call_data
  | ConsoleError error_site exn
  | ConsoleWarn warn_site
  | Emit string "emit_arg list"
  | PermissionCheck platform
  | PermissionRequest platform
  | AlertMicrophoneRequired
  | ShowIncomingCallNotification call_data
  | SocketConnectCall
  | SocketDisconnectCall
  | IoOpen string io_options

subsection \<open>The socket and the provider state\<close>

datatype handler =
    HandleConnect
  | HandleDisconnect
  | HandleConnectError
  | HandleReceiveMessage
  | HandleIncomingCall
  | HandleCallCancelled
  | HandleOfflineMessagesDelivered

datatype any_listener = OnAnyFallback

record socket =
  url :: string
  opts :: io_options
  connected :: bool
  listeners :: "(string \<times> handler) list"
  anyListeners :: "any_listener list"

datatype timer_action = EmitGetOfflineMessages | LogListenerCount | WarmUpConnection

record provider =
  socketRef :: "socket option"
  isConnected :: bool
  unreadMessageCount :: nat
  messageSubscribers :: "cb list"
  callSubscribers :: "cb list"
  clock :: nat
  timers :: "(nat \<times> timer_action) list"
  trace :: "effect list"

subsection \<open>The environment\<close>

datatype 'a promise = Resolves 'a | Rejects exn

datatype android_result = AndroidGranted | AndroidDenied | AndroidNeverAskAgain

datatype ios_status = Unavailable | Denied | Blocked | Granted | Limited

datatype app_state = Active | Background | Inactive

text \<open>What the platform and the consumers answer when the provider asks: the outcome of
  each awaited permission promise, the application state, and for every callback and
  payload whether the callback returns (\<open>None\<close>) or throws. \<open>BASE_URL\<close> is the constant
  of \<^verbatim>\<open>config/api\<close>, which is not part of the sources at hand.\<close>

record env =
  BASE_URL :: string
  Platform_OS :: platform
  AppState_currentState :: app_state
  android_check :: "bool promise"
  android_request :: "android_result promise"
  ios_check :: "ios_status promise"
  ios_request :: "ios_status promise"
  message_callback :: "cb \<Rightarrow> Message \<Rightarrow> exn option"
  call_callback :: "cb \<Rightarrow> call_data \<Rightarrow> exn option"

section \<open>Control flow\<close>

definition log_effect :: "effect \<Rightarrow> provider \<Rightarrow> provider" where
  "log_effect e p = p\<lparr>trace := trace p @ [e]\<rparr>"

text \<open>\<^verbatim>\<open>try { body } catch (error) { handle(error) }\<close>: a throw of the body is
  handed to the catch block; any other completion passes.\<close>

definition try_catch ::
  "(provider \<Rightarrow> completion \<times> provider) \<Rightarrow> (exn \<Rightarrow> provider \<Rightarrow> completion \<times> provider)
   \<Rightarrow> provider \<Rightarrow> completion \<times> provider" where
  "try_catch body handle p =
     (case body p of
        (Threw e, p') \<Rightarrow> handle e p'
      | (c, p') \<Rightarrow> (c, p'))"

text \<open>\<^verbatim>\<open>Set.prototype.forEach\<close> over the members in insertion order. A throw of the
  function ends the iteration and leaves \<^verbatim>\<open>forEach\<close>; a \<^verbatim>\<open>return\<close> inside the arrow
  function only ends that call.\<close>

fun forEach :: "('a \<Rightarrow> provider \<Rightarrow> completion \<times> provider) \<Rightarrow> 'a list \<Rightarrow> provider
                \<Rightarrow> completion \<times> provider" where
  "forEach f [] p = (Normal, p)"
| "forEach f (x # xs) p =
     (case f x p of
        (Threw e, p') \<Rightarrow> (Threw e, p')
      | (_, p') \<Rightarrow> forEach f xs p')"

text \<open>Calling a subscriber: the call is recorded, then the callback returns or throws.\<close>

definition call_message_callback :: "env \<Rightarrow> cb \<Rightarrow> Message \<Rightarrow> provider \<Rightarrow> completion \<times> provider" where
  "call_message_callback E c m p =
     (case message_callback E c m of
        None \<Rightarrow> (Normal, log_effect (MessageCallback c m) p)
      | Some e \<Rightarrow> (Threw e, log_effect (MessageCallback c m) p))"

definition call_call_callback :: "env \<Rightarrow> cb \<Rightarrow> call_data \<Rightarrow> provider \<Rightarrow> completion \<times> provider" where
  "call_call_callback E c d p =
     (case call_callback E c d of
        None \<Rightarrow> (Normal, log_effect (CallCallback c d) p)
      | Some e \<Rightarrow> (Threw e, log_effect (CallCallback c d) p))"

definition console_error :: "error_site \<Rightarrow> exn \<Rightarrow> provider \<Rightarrow> completion \<times> provider" where
  "console_error site e p = (Normal, log_effect (ConsoleError site e) p)"

section \<open>Credential normalisation and the connection options\<close>

definition startsWith :: "string \<Rightarrow> string \<Rightarrow> bool" where
  "startsWith s pre = (take (length pre) s = pre)"

definition substring :: "string \<Rightarrow> nat \<Rightarrow> string" where
  "substring s n = drop n s"

text \<open>Lines 100 to 103: \<^verbatim>\<open>processedToken\<close>.\<close>

definition processedToken :: "string \<Rightarrow> string" where
  "processedToken userToken =
     (if startsWith userToken ''Bearer '' then substring userToken 7 else userToken)"

text \<open>Lines 110 to 122: the second argument of \<^verbatim>\<open>io(BASE_URL, ...)\<close>.\<close>

definition socket_options :: "string \<Rightarrow> io_options" where
  "socket_options userToken =
     \<lparr> auth_token = processedToken userToken,
       transports = [''websocket'', ''polling''],
       timeout = 3000,
       reconnection = True,
       reconnectionAttempts = 30,
       reconnectionDelay = 100,
       reconnectionDelayMax = 800,
       randomizationFactor = 1 / 10,
       forceNew = False \<rparr>"


section \<open>The subscriber sets\<close>

text \<open>A JavaScript \<^verbatim>\<open>Set\<close> of function references, kept as the list of its members in
  insertion order. \<^verbatim>\<open>add\<close> of a member leaves the set as it is; \<^verbatim>\<open>delete\<close> removes
  the member.\<close>

definition Set_add :: "'a \<Rightarrow> 'a list \<Rightarrow> 'a list" where
  "Set_add x xs = (if x \<in> set xs then xs else xs @ [x])"

definition Set_delete :: "'a \<Rightarrow> 'a list \<Rightarrow> 'a list" where
  "Set_delete x xs = removeAll x xs"

text \<open>Lines 387 to 408. Each function registers the callback and returns the closure that
  removes it again.\<close>

definition subscribeToMessages :: "cb \<Rightarrow> provider \<Rightarrow> (provider \<Rightarrow> provider) \<times> provider" where
  "subscribeToMessages callback p =
     (\<lambda>q. q\<lparr>messageSubscribers := Set_delete callback (messageSubscribers q)\<rparr>,
      p\<lparr>messageSubscribers := Set_add callback (messageSubscribers p)\<rparr>)"

definition subscribeToIncomingCalls :: "cb \<Rightarrow> provider \<Rightarrow> (provider \<Rightarrow> provider) \<times> provider" where
  "subscribeToIncomingCalls callback p =
     (\<lambda>q. q\<lparr>callSubscribers := Set_delete callback (callSubscribers q)\<rparr>,
      p\<lparr>callSubscribers := Set_add callback (callSubscribers p)\<rparr>)"

section \<open>The unread counter\<close>

definition addUnreadMessage :: "provider \<Rightarrow> provider" where
  "addUnreadMessage p = p\<lparr>unreadMessageCount := unreadMessageCount p + 1\<rparr>"

definition clearUnreadMessages :: "provider \<Rightarrow> provider" where
  "clearUnreadMessages p = p\<lparr>unreadMessageCount := 0\<rparr>"

section \<open>The wire-event handlers\<close>

text \<open>Lines 127 to 141. The assignment to \<^verbatim>\<open>global.socketRef\<close> publishes the reference
  the state already holds and is not recorded.\<close>

definition handleConnect :: "provider \<Rightarrow> completion \<times> provider" where
  "handleConnect p =
     (Normal, p\<lparr>isConnected := True,
                 timers := timers p @ [(clock p + 1000, EmitGetOfflineMessages)]\<rparr>)"

definition handleDisconnect :: "provider \<Rightarrow> completion \<times> provider" where
  "handleDisconnect p = (Normal, p\<lparr>isConnected := False\<rparr>)"

definition handleConnectError :: "exn \<Rightarrow> provider \<Rightarrow> completion \<times> provider" where
  "handleConnectError error p =
     (Normal, (log_effect (ConsoleError SocketConnectError error) p)\<lparr>isConnected := False\<rparr>)"

text \<open>Lines 156 to 170.\<close>

definition handleReceiveMessage :: "env \<Rightarrow> Message \<Rightarrow> provider \<Rightarrow> completion \<times> provider" where
  "handleReceiveMessage E message p =
     (case forEach (\<lambda>callback. try_catch (call_message_callback E callback message)
                                          (console_error MessageCallbackFailed))
                   (messageSubscribers p) p of
        (Threw e, p') \<Rightarrow> (Threw e, p')
      | (_, p') \<Rightarrow> (Normal, p'\<lparr>unreadMessageCount := unreadMessageCount p' + 1\<rparr>))"

text \<open>Lines 173 to 176: only \<^verbatim>\<open>console.log\<close>.\<close>

definition handleOfflineMessagesDelivered :: "int \<Rightarrow> provider \<Rightarrow> completion \<times> provider" where
  "handleOfflineMessagesDelivered count p = (Normal, p)"

text \<open>Lines 188 to 195: the value of \<^verbatim>\<open>hasPermission\<close> after the awaited check. A
  rejected promise throws at the \<^verbatim>\<open>await\<close>.\<close>

definition check_outcome :: "env \<Rightarrow> exn + bool" where
  "check_outcome E =
     (if Platform_OS E = Android then
        (case android_check E of
           Resolves granted \<Rightarrow> Inr granted
         | Rejects e \<Rightarrow> Inl e)
      else
        (case ios_check E of
           Resolves permissionStatus \<Rightarrow> Inr (permissionStatus = Granted)
         | Rejects e \<Rightarrow> Inl e))"

text \<open>Lines 200 to 215: the value of \<^verbatim>\<open>hasPermission\<close> after the awaited request.\<close>

definition request_outcome :: "env \<Rightarrow> exn + bool" where
  "request_outcome E =
     (if Platform_OS E = Android then
        (case android_request E of
           Resolves granted \<Rightarrow> Inr (granted = AndroidGranted)
         | Rejects e \<Rightarrow> Inl e)
      else
        (case ios_request E of
           Resolves result \<Rightarrow> Inr (result = Granted)
         | Rejects e \<Rightarrow> Inl e))"

text \<open>Lines 185 to 238: the body of the \<^verbatim>\<open>try\<close> block.\<close>

definition permission_block :: "env \<Rightarrow> provider \<Rightarrow> completion \<times> provider" where
  "permission_block E p =
     (let p1 = log_effect (PermissionCheck (Platform_OS E)) p in
      case check_outcome E of
        Inl e \<Rightarrow> (Threw e, p1)
      | Inr hasPermission \<Rightarrow>
          if \<not> hasPermission then
            (let p2 = log_effect (PermissionRequest (Platform_OS E)) p1 in
             case request_outcome E of
               Inl e \<Rightarrow> (Threw e, p2)
             | Inr hasPermission' \<Rightarrow>
                 if \<not> hasPermission' then (Returned, log_effect AlertMicrophoneRequired p2)
                 else (Normal, p2))
          else (Normal, p1))"

text \<open>\<^verbatim>\<open>socketRef.current?.disconnected\<close>.\<close>

definition socket_disconnected :: "provider \<Rightarrow> bool" where
  "socket_disconnected p = (case socketRef p of None \<Rightarrow> False | Some s \<Rightarrow> \<not> connected s)"

text \<open>Lines 245 to 269: the iOS branch.\<close>

definition ios_branch :: "env \<Rightarrow> call_data \<Rightarrow> provider \<Rightarrow> provider" where
  "ios_branch E callData p =
     (if Platform_OS E = IOS then
        (if AppState_currentState E = Active then
           (if socket_disconnected p then log_effect SocketConnectCall p else p)
         else
           (let p1 = log_effect (ShowIncomingCallNotification callData) p
            in p1\<lparr>timers := timers p1 @ [(clock p1 + 50, WarmUpConnection)]\<rparr>))
      else p)"

text \<open>Lines 272 to 282: the subscribers are visited with a running index that starts
  at 1.\<close>

definition notify_call_subscribers :: "env \<Rightarrow> call_data \<Rightarrow> provider \<Rightarrow> completion \<times> provider" where
  "notify_call_subscribers E callData p =
     forEach (\<lambda>(index, callback). try_catch (call_call_callback E callback callData)
                                            (console_error (CallSubscriberFailed index)))
             (enumerate 1 (callSubscribers p)) p"

text \<open>Lines 179 to 283. The completion is that of the body of the \<^verbatim>\<open>async\<close> function:
  \<open>Threw\<close> would be a rejected promise.\<close>

definition handleIncomingCall :: "env \<Rightarrow> call_data \<Rightarrow> provider \<Rightarrow> completion \<times> provider" where
  "handleIncomingCall E callData p =
     (case try_catch (permission_block E) (console_error MicPermissionCheckFailed) p of
        (Returned, p1) \<Rightarrow> (Normal, p1)
      | (Threw e, p1) \<Rightarrow> (Threw e, p1)
      | (Normal, p1) \<Rightarrow> notify_call_subscribers E callData (ios_branch E callData p1))"

text \<open>\<^verbatim>\<open>{ ...callData, eventType: 'call_cancelled' }\<close>: the properties of the payload,
  with \<^verbatim>\<open>eventType\<close> set (replaced where the payload has one, added last otherwise).\<close>

definition cancelled_payload :: "call_data \<Rightarrow> js_object" where
  "cancelled_payload callData =
     AList.update ''eventType'' (JStr ''call_cancelled'')
       (case callData of None \<Rightarrow> [] | Some obj \<Rightarrow> obj)"

text \<open>Lines 286 to 298.\<close>

definition handleCallCancelled :: "env \<Rightarrow> call_data \<Rightarrow> provider \<Rightarrow> completion \<times> provider" where
  "handleCallCancelled E callData p =
     forEach (\<lambda>callback. try_catch (call_call_callback E callback (Some (cancelled_payload callData)))
                                    (console_error CallCancelledCallbackFailed))
             (callSubscribers p) p"

section \<open>Creating and releasing the connection\<close>

text \<open>Lines 301 to 308: the bindings, in the order of the \<^verbatim>\<open>socket.on\<close> calls.\<close>

definition bound_listeners :: "(string \<times> handler) list" where
  "bound_listeners =
     [(''connect'', HandleConnect),
      (''disconnect'', HandleDisconnect),
      (''connect_error'', HandleConnectError),
      (''receive_message'', HandleReceiveMessage),
      (''message'', HandleReceiveMessage),
      (''incoming_call'', HandleIncomingCall),
      (''call_cancelled'', HandleCallCancelled),
      (''offline_messages_delivered'', HandleOfflineMessagesDelivered)]"

text \<open>Lines 86 to 338: the body of the effect that runs when \<^verbatim>\<open>userToken\<close> changes.
  A missing token and the empty string are both falsy.\<close>

definition initSocket :: "env \<Rightarrow> string option \<Rightarrow> provider \<Rightarrow> provider" where
  "initSocket E userToken p =
     (case userToken of
        None \<Rightarrow>
          (case socketRef p of
             None \<Rightarrow> p
           | Some s \<Rightarrow> (log_effect SocketDisconnectCall p)\<lparr>socketRef := None, isConnected := False\<rparr>)
      | Some token \<Rightarrow>
          if token = [] then
            (case socketRef p of
               None \<Rightarrow> p
             | Some s \<Rightarrow> (log_effect SocketDisconnectCall p)\<lparr>socketRef := None, isConnected := False\<rparr>)
          else
            (let p1 = log_effect (IoOpen (BASE_URL E) (socket_options token)) p;
                 socket = \<lparr> url = BASE_URL E, opts = socket_options token, connected = False,
                            listeners = bound_listeners, anyListeners = [OnAnyFallback] \<rparr>
             in p1\<lparr>socketRef := Some socket,
                    timers := timers p1 @ [(clock p1 + 100, LogListenerCount)]\<rparr>))"

text \<open>Lines 341 to 355: the clean-up function of the effect.\<close>

definition cleanupSocket :: "provider \<Rightarrow> provider" where
  "cleanupSocket p =
     (log_effect SocketDisconnectCall p)\<lparr>socketRef := None, isConnected := False\<rparr>"

section \<open>Delivery of an inbound wire event\<close>

datatype inbound =
    InConnect
  | InDisconnect
  | InConnectError exn
  | InReceiveMessage Message
  | InMessage Message
  | InIncomingCall call_data
  | InCallCancelled call_data
  | InOfflineMessagesDelivered int

definition eventName :: "inbound \<Rightarrow> string" where
  "eventName ev =
     (case ev of
        InConnect \<Rightarrow> ''connect''
      | InDisconnect \<Rightarrow> ''disconnect''
      | InConnectError _ \<Rightarrow> ''connect_error''
      | InReceiveMessage _ \<Rightarrow> ''receive_message''
      | InMessage _ \<Rightarrow> ''message''
      | InIncomingCall _ \<Rightarrow> ''incoming_call''
      | InCallCancelled _ \<Rightarrow> ''call_cancelled''
      | InOfflineMessagesDelivered _ \<Rightarrow> ''offline_messages_delivered'')"

text \<open>The event emitter calls an \<^verbatim>\<open>async\<close> function and drops the promise it returns: a
  rejection does not reach the caller.\<close>

definition call_async :: "(provider \<Rightarrow> completion \<times> provider) \<Rightarrow> provider \<Rightarrow> completion \<times> provider" where
  "call_async f p = (Normal, snd (f p))"

text \<open>Lines 320 to 338: the catch-all listener. \<^verbatim>\<open>args[0]\<close> is truthy exactly when the
  event carries an object.\<close>

definition onAnyListener :: "env \<Rightarrow> inbound \<Rightarrow> provider \<Rightarrow> completion \<times> provider" where
  "onAnyListener E ev p =
     (case ev of
        InIncomingCall args0 \<Rightarrow>
          if args0 \<noteq> None then call_async (handleIncomingCall E args0) p else (Normal, p)
      | InCallCancelled args0 \<Rightarrow>
          if args0 \<noteq> None then handleCallCancelled E args0 p else (Normal, p)
      | _ \<Rightarrow> (Normal, p))"

text \<open>A listener bound with \<^verbatim>\<open>socket.on\<close> receives the arguments of the event it is bound
  to; under another event it has nothing to run on.\<close>

definition run_handler :: "env \<Rightarrow> handler \<Rightarrow> inbound \<Rightarrow> provider \<Rightarrow> completion \<times> provider" where
  "run_handler E h ev p =
     (case (h, ev) of
        (HandleConnect, _) \<Rightarrow> handleConnect p
      | (HandleDisconnect, _) \<Rightarrow> handleDisconnect p
      | (HandleConnectError, InConnectError e) \<Rightarrow> handleConnectError e p
      | (HandleReceiveMessage, InReceiveMessage m) \<Rightarrow> handleReceiveMessage E m p
      | (HandleReceiveMessage, InMessage m) \<Rightarrow> handleReceiveMessage E m p
      | (HandleIncomingCall, InIncomingCall d) \<Rightarrow> call_async (handleIncomingCall E d) p
      | (HandleCallCancelled, InCallCancelled d) \<Rightarrow> handleCallCancelled E d p
      | (HandleOfflineMessagesDelivered, InOfflineMessagesDelivered n) \<Rightarrow>
          handleOfflineMessagesDelivered n p
      | _ \<Rightarrow> (Normal, p))"

definition reserved :: "inbound \<Rightarrow> bool" where
  "reserved ev = (case ev of InConnect \<Rightarrow> True | InDisconnect \<Rightarrow> True
                   | InConnectError _ \<Rightarrow> True | _ \<Rightarrow> False)"

text \<open>The library's own bookkeeping of \<^verbatim>\<open>socket.connected\<close>, done before the listeners
  run.\<close>

definition transport_update :: "inbound \<Rightarrow> socket \<Rightarrow> socket" where
  "transport_update ev s =
     (case ev of
        InConnect \<Rightarrow> s\<lparr>connected := True\<rparr>
      | InDisconnect \<Rightarrow> s\<lparr>connected := False\<rparr>
      | _ \<Rightarrow> s)"

text \<open>
  Modelled from the spec: how the transport library (socket.io, not part of the
  repository) hands an inbound event to the listeners. Section 4.4 of the specification:
  the catch-all listener "observes every inbound wire event regardless of name", beside the
  listener bound to the name. The library calls the catch-all listeners first, then the
  listeners bound to the event's name, each with the event's arguments; its reserved
  events (connect, disconnect, connect_error) go to the named listeners only. Without a
  socket nothing is delivered.
\<close>

definition deliver :: "env \<Rightarrow> inbound \<Rightarrow> provider \<Rightarrow> completion \<times> provider" where
  "deliver E ev p =
     (case socketRef p of
        None \<Rightarrow> (Normal, p)
      | Some s \<Rightarrow>
          (let p0 = p\<lparr>socketRef := Some (transport_update ev s)\<rparr> in
           case forEach (\<lambda>l. onAnyListener E ev)
                        (if reserved ev then [] else anyListeners s) p0 of
             (Threw e, p1) \<Rightarrow> (Threw e, p1)
           | (_, p1) \<Rightarrow>
               forEach (\<lambda>h. run_handler E h ev)
                       (map snd (filter (\<lambda>b. fst b = eventName ev) (listeners s))) p1))"

section \<open>Timers\<close>

text \<open>The three timer callbacks: line 139, line 315 (only \<^verbatim>\<open>console.log\<close>) and
  lines 263 to 266.\<close>

definition run_timer_action :: "timer_action \<Rightarrow> provider \<Rightarrow> provider" where
  "run_timer_action a p =
     (case a of
        EmitGetOfflineMessages \<Rightarrow> log_effect (Emit ''get_offline_messages'' []) p
      | LogListenerCount \<Rightarrow> p
      | WarmUpConnection \<Rightarrow>
          if socket_disconnected p then log_effect SocketConnectCall p else p)"

text \<open>Letting \<open>dt\<close> milliseconds pass: every timer that is due by then fires, earliest
  first; a timer never fires before its delay has passed.\<close>

definition advance :: "nat \<Rightarrow> provider \<Rightarrow> provider" where
  "advance dt p =
     (let now = clock p + dt;
          due = sort_key fst (filter (\<lambda>t. fst t \<le> now) (timers p));
          later = filter (\<lambda>t. \<not> fst t \<le> now) (timers p)
      in foldl (\<lambda>q t. run_timer_action (snd t) q) (p\<lparr>clock := now, timers := later\<rparr>) due)"

section \<open>The public interface\<close>

text \<open>Lines 359 to 384 and 421 to 432. \<open>isConnected\<close> is the provider's state variable.\<close>

definition sendMessage :: "js_object \<Rightarrow> provider \<Rightarrow> completion \<times> provider" where
  "sendMessage messageData p =
     (if socketRef p \<noteq> None \<and> isConnected p then
        (Normal, log_effect (Emit ''send_message'' [ArgObj messageData]) p)
      else (Normal, log_effect (ConsoleWarn CannotSendMessage) p))"

definition joinConversation :: "string \<Rightarrow> provider \<Rightarrow> completion \<times> provider" where
  "joinConversation conversation p =
     (if socketRef p \<noteq> None \<and> isConnected p then
        (Normal, log_effect (Emit ''join_conversation'' [ArgStr conversation]) p)
      else (Normal, log_effect (ConsoleWarn CannotJoinConversation) p))"

definition leaveConversation :: "string \<Rightarrow> provider \<Rightarrow> completion \<times> provider" where
  "leaveConversation conversation p =
     (if socketRef p \<noteq> None \<and> isConnected p then
        (Normal, log_effect (Emit ''leave_conversation'' [ArgStr conversation]) p)
      else (Normal, p))"

definition rejectCall :: "string \<Rightarrow> string \<Rightarrow> string option \<Rightarrow> provider \<Rightarrow> completion \<times> provider" where
  "rejectCall callId recipientId conversation p =
     (if socketRef p \<noteq> None \<and> isConnected p then
        (Normal, log_effect (Emit ''reject_call''
           [ArgObj [(''callId'', JStr callId),
                    (''recipientId'', JStr recipientId),
                    (''conversationId'',
                       case conversation of None \<Rightarrow> JUndefined | Some c \<Rightarrow> JStr c)]]) p)
      else (Normal, log_effect (ConsoleWarn CannotRejectCall) p))"

section \<open>Reading the trace\<close>

definition message_calls :: "effect list \<Rightarrow> (cb \<times> Message) list" where
  "message_calls es = concat (map (\<lambda>e. case e of MessageCallback c m \<Rightarrow> [(c, m)] | _ \<Rightarrow> []) es)"

definition call_calls :: "effect list \<Rightarrow> (cb \<times> call_data) list" where
  "call_calls es = concat (map (\<lambda>e. case e of CallCallback c d \<Rightarrow> [(c, d)] | _ \<Rightarrow> []) es)"

definition emits :: "effect list \<Rightarrow> (string \<times> emit_arg list) list" where
  "emits es = concat (map (\<lambda>e. case e of Emit n as \<Rightarrow> [(n, as)] | _ \<Rightarrow> []) es)"

definition alerts :: "effect list \<Rightarrow> nat" where
  "alerts es = length (filter (\<lambda>e. e = AlertMicrophoneRequired) es)"

definition permission_effects :: "effect list \<Rightarrow> effect list" where
  "permission_effects es =
     filter (\<lambda>e. case e of PermissionCheck _ \<Rightarrow> True | PermissionRequest _ \<Rightarrow> True
                  | AlertMicrophoneRequired \<Rightarrow> True | _ \<Rightarrow> False) es"

definition console_errors :: "effect list \<Rightarrow> (error_site \<times> exn) list" where
  "console_errors es = concat (map (\<lambda>e. case e of ConsoleError s x \<Rightarrow> [(s, x)] | _ \<Rightarrow> []) es)"

text \<open>The initial state of the component: no socket, nothing subscribed.\<close>

definition initial_provider :: provider where
  "initial_provider =
     \<lparr> socketRef = None, isConnected = False, unreadMessageCount = 0,
       messageSubscribers = [], callSubscribers = [], clock = 0, timers = [], trace = [] \<rparr>"

text \<open>A provider whose socket carries the bindings of lines 301 to 338.\<close>

definition listening :: "provider \<Rightarrow> bool" where
  "listening p =
     (case socketRef p of
        None \<Rightarrow> False
      | Some s \<Rightarrow> listeners s = bound_listeners \<and> anyListeners s = [OnAnyFallback])"

section \<open>Runs of the event router\<close>

text \<open>What can happen to the router, one after the other: a consumer subscribes, a
  consumer calls the capability that a subscription of that callback returned, or a
  handler publishes an event to a category.\<close>

datatype router_op =
    SubscribeMessages cb
  | UnsubscribeMessages cb
  | PublishMessage Message
  | SubscribeCalls cb
  | UnsubscribeCalls cb
  | PublishIncomingCall call_data
  | PublishCallCancelled call_data

definition router_step :: "env \<Rightarrow> provider \<Rightarrow> router_op \<Rightarrow> provider" where
  "router_step E p operation =
     (case operation of
        SubscribeMessages c \<Rightarrow> snd (subscribeToMessages c p)
      | UnsubscribeMessages c \<Rightarrow> fst (subscribeToMessages c p) p
      | PublishMessage m \<Rightarrow> snd (handleReceiveMessage E m p)
      | SubscribeCalls c \<Rightarrow> snd (subscribeToIncomingCalls c p)
      | UnsubscribeCalls c \<Rightarrow> fst (subscribeToIncomingCalls c p) p
      | PublishIncomingCall d \<Rightarrow> snd (handleIncomingCall E d p)
      | PublishCallCancelled d \<Rightarrow> snd (handleCallCancelled E d p))"

definition router_run :: "env \<Rightarrow> router_op list \<Rightarrow> provider \<Rightarrow> provider" where
  "router_run E ops p = foldl (router_step E) p ops"

text \<open>The specification's side of the router (section 8): the events a callback is to
  receive are those published while it was registered. \<open>reg\<close> says whether the callback is
  registered before the first operation. An incoming call is published unless the
  permission was denied.\<close>

fun messages_while_registered :: "cb \<Rightarrow> bool \<Rightarrow> router_op list \<Rightarrow> Message list" where
  "messages_while_registered c reg [] = []"
| "messages_while_registered c reg (SubscribeMessages c' # ops) =
     messages_while_registered c (reg \<or> c' = c) ops"
| "messages_while_registered c reg (UnsubscribeMessages c' # ops) =
     messages_while_registered c (reg \<and> c' \<noteq> c) ops"
| "messages_while_registered c reg (PublishMessage m # ops) =
     (if reg then [m] else []) @ messages_while_registered c reg ops"
| "messages_while_registered c reg (_ # ops) = messages_while_registered c reg ops"

definition permission_denied :: "env \<Rightarrow> bool" where
  "permission_denied E = (check_outcome E = Inr False \<and> request_outcome E = Inr False)"

fun calls_while_registered :: "env \<Rightarrow> cb \<Rightarrow> bool \<Rightarrow> router_op list \<Rightarrow> call_data list" where
  "calls_while_registered E c reg [] = []"
| "calls_while_registered E c reg (SubscribeCalls c' # ops) =
     calls_while_registered E c (reg \<or> c' = c) ops"
| "calls_while_registered E c reg (UnsubscribeCalls c' # ops) =
     calls_while_registered E c (reg \<and> c' \<noteq> c) ops"
| "calls_while_registered E c reg (PublishIncomingCall d # ops) =
     (if reg \<and> \<not> permission_denied E then [d] else []) @ calls_while_registered E c reg ops"
| "calls_while_registered E c reg (PublishCallCancelled d # ops) =
     (if reg then [Some (cancelled_payload d)] else []) @ calls_while_registered E c reg ops"
| "calls_while_registered E c reg (_ # ops) = calls_while_registered E c reg ops"

text \<open>The payloads one callback was invoked with, in order.\<close>

definition messages_received :: "cb \<Rightarrow> provider \<Rightarrow> Message list" where
  "messages_received c p = map snd (filter (\<lambda>x. fst x = c) (message_calls (trace p)))"

definition calls_received :: "cb \<Rightarrow> provider \<Rightarrow> call_data list" where
  "calls_received c p = map snd (filter (\<lambda>x. fst x = c) (call_calls (trace p)))"

section \<open>Auxiliary notions for the statements\<close>

text \<open>What one pass over a subscriber set leaves in the trace: each member is called, and a
  throw of the call is followed by the error output of the catch block.\<close>

definition dispatch_effects :: "('a \<Rightarrow> effect) \<Rightarrow> ('a \<Rightarrow> exn option) \<Rightarrow> ('a \<Rightarrow> error_site) \<Rightarrow> 'a list \<Rightarrow> effect list" where
  "dispatch_effects eff out site xs =
     concat (map (\<lambda>x. eff x # (case out x of None \<Rightarrow> [] | Some e \<Rightarrow> [ConsoleError (site x) e])) xs)"

text \<open>The permission check or the request itself failed: an awaited promise was
  rejected.\<close>

definition permission_failed :: "env \<Rightarrow> bool" where
  "permission_failed E =
     (isl (check_outcome E) \<or> (check_outcome E = Inr False \<and> isl (request_outcome E)))"

text \<open>How often the backlog request went out on the wire.\<close>

definition offline_requests :: "effect list \<Rightarrow> nat" where
  "offline_requests es = length (filter (\<lambda>x. fst x = ''get_offline_messages'') (emits es))"

section \<open>Sample inputs\<close>

definition sample_env :: env where
  "sample_env =
     \<lparr> BASE_URL = ''https://example.invalid'', Platform_OS = Android,
       AppState_currentState = Active,
       android_check = Resolves True, android_request = Resolves AndroidGranted,
       ios_check = Resolves Granted, ios_request = Resolves Granted,
       message_callback = (\<lambda>c m. if c = 1 then Some (Error ''boom'') else None),
       call_callback = (\<lambda>c d. if c = 1 then Some (Error ''boom'') else None) \<rparr>"

definition sample_message :: Message where
  "sample_message =
     \<lparr> msg_id = ''m1'', conversationId = Some ''conv1'', senderId = ''u1'',
       senderRole = Some RoleUser, content = ''hello'', timestamp = 0, isRead = None,
       messageType = Some MtText, contentType = Some CtText, voiceDuration = None,
       voiceUrl = None, imageUrl = None, videoUrl = None, videoDuration = None,
       isUploading = None, uploadProgress = None, videoWidth = None, videoHeight = None,
       aspectRatio = None, fileUrl = None, localFileUri = None, isCallRecord = None,
       callerId = None, callDuration = None, missed = None, rejected = None,
       latitude = None, longitude = None, locationName = None, address = None \<rparr>"

definition sample_call :: js_object where
  "sample_call =
     [(''callId'', JStr ''c1''), (''callerId'', JStr ''u1''),
      (''recipientId'', JStr ''u2''), (''conversationId'', JStr ''conv1'')]"

text \<open>The permission is refused at the check and at the request.\<close>

definition denying_env :: env where
  "denying_env = sample_env\<lparr>android_check := Resolves False, android_request := Resolves AndroidDenied\<rparr>"

text \<open>The permission check itself fails.\<close>

definition failing_env :: env where
  "failing_env = sample_env\<lparr>android_check := Rejects (Error ''no activity'')\<rparr>"

text \<open>The check finds the permission missing and the request fails.\<close>

definition request_failing_env :: env where
  "request_failing_env =
     sample_env\<lparr>android_check := Resolves False, android_request := Rejects (Error ''no activity'')\<rparr>"

text \<open>A provider that holds a socket created for a token, with one callback registered
  in each category.\<close>

definition sample_provider :: provider where
  "sample_provider =
     snd (subscribeToIncomingCalls 7
       (snd (subscribeToMessages 7 (initSocket sample_env (Some ''Bearer abc'') initial_provider))))"

section \<open>Basic facts\<close>

lemma log_effect_simps:
  "trace (log_effect e p) = trace p @ [e]"
  "socketRef (log_effect e p) = socketRef p"
  "isConnected (log_effect e p) = isConnected p"
  "unreadMessageCount (log_effect e p) = unreadMessageCount p"
  "messageSubscribers (log_effect e p) = messageSubscribers p"
  "callSubscribers (log_effect e p) = callSubscribers p"
  "clock (log_effect e p) = clock p"
  "timers (log_effect e p) = timers p"
  by (simp_all add: log_effect_def)

subsection \<open>One pass over a subscriber set\<close>

text \<open>A loop whose body catches every throw visits all members and completes normally.\<close>

lemma forEach_try_catch:
  assumes body: "\<And>x q. body x q =
      (case out x of None \<Rightarrow> (Normal, log_effect (eff x) q)
                   | Some e \<Rightarrow> (Threw e, log_effect (eff x) q))"
  shows "forEach (\<lambda>x. try_catch (body x) (console_error (site x))) xs p =
           (Normal, p\<lparr>trace := trace p @ dispatch_effects eff out site xs\<rparr>)"
proof (induction xs arbitrary: p)
  case Nil
  show ?case by (simp add: dispatch_effects_def)
next
  case (Cons x xs)
  show ?case
  proof (cases "out x")
    case None
    then have step: "try_catch (body x) (console_error (site x)) p = (Normal, log_effect (eff x) p)"
      by (simp add: try_catch_def body)
    show ?thesis
      using None by (simp add: step Cons.IH dispatch_effects_def log_effect_def)
  next
    case (Some e)
    then have step: "try_catch (body x) (console_error (site x)) p =
        (Normal, log_effect (ConsoleError (site x) e) (log_effect (eff x) p))"
      by (simp add: try_catch_def body console_error_def)
    show ?thesis
      using Some by (simp add: step Cons.IH dispatch_effects_def log_effect_def)
  qed
qed

lemma handleReceiveMessage_eq:
  "handleReceiveMessage E m p =
     (Normal, p\<lparr>trace := trace p @ dispatch_effects (\<lambda>c. MessageCallback c m)
                   (\<lambda>c. message_callback E c m) (\<lambda>c. MessageCallbackFailed) (messageSubscribers p),
                unreadMessageCount := unreadMessageCount p + 1\<rparr>)"
  unfolding handleReceiveMessage_def
  by (subst forEach_try_catch[where out = "\<lambda>c. message_callback E c m" and eff = "\<lambda>c. MessageCallback c m"])
     (simp_all add: call_message_callback_def)

lemma handleCallCancelled_eq:
  "handleCallCancelled E d p =
     (Normal, p\<lparr>trace := trace p @ dispatch_effects (\<lambda>c. CallCallback c (Some (cancelled_payload d)))
                   (\<lambda>c. call_callback E c (Some (cancelled_payload d)))
                   (\<lambda>c. CallCancelledCallbackFailed) (callSubscribers p)\<rparr>)"
  unfolding handleCallCancelled_def
  by (subst forEach_try_catch[where out = "\<lambda>c. call_callback E c (Some (cancelled_payload d))"
        and eff = "\<lambda>c. CallCallback c (Some (cancelled_payload d))"])
     (simp_all add: call_call_callback_def)

lemma notify_call_subscribers_eq:
  "notify_call_subscribers E d p =
     (Normal, p\<lparr>trace := trace p @ dispatch_effects (\<lambda>x. CallCallback (snd x) d)
                   (\<lambda>x. call_callback E (snd x) d) (\<lambda>x. CallSubscriberFailed (fst x))
                   (enumerate 1 (callSubscribers p))\<rparr>)"
proof -
  have "notify_call_subscribers E d p =
      forEach (\<lambda>x. try_catch (call_call_callback E (snd x) d) (console_error (CallSubscriberFailed (fst x))))
        (enumerate 1 (callSubscribers p)) p"
    by (simp add: notify_call_subscribers_def case_prod_unfold)
  also have "\<dots> = (Normal, p\<lparr>trace := trace p @ dispatch_effects (\<lambda>x. CallCallback (snd x) d)
                   (\<lambda>x. call_callback E (snd x) d) (\<lambda>x. CallSubscriberFailed (fst x))
                   (enumerate 1 (callSubscribers p))\<rparr>)"
    by (rule forEach_try_catch[where body = "\<lambda>x. call_call_callback E (snd x) d"])
       (simp add: call_call_callback_def)
  finally show ?thesis .
qed

lemma message_calls_simps:
  "message_calls [] = []"
  "message_calls (MessageCallback c m # es) = (c, m) # message_calls es"
  "message_calls (CallCallback c d # es) = message_calls es"
  "message_calls (ConsoleError s x # es) = message_calls es"
  "message_calls (xs @ ys) = message_calls xs @ message_calls ys"
  by (simp_all add: message_calls_def)

lemma call_calls_simps:
  "call_calls [] = []"
  "call_calls (CallCallback c d # es) = (c, d) # call_calls es"
  "call_calls (MessageCallback c m # es) = call_calls es"
  "call_calls (ConsoleError s x # es) = call_calls es"
  "call_calls (xs @ ys) = call_calls xs @ call_calls ys"
  by (simp_all add: call_calls_def)

lemma console_errors_simps:
  "console_errors [] = []"
  "console_errors (CallCallback c d # es) = console_errors es"
  "console_errors (MessageCallback c m # es) = console_errors es"
  "console_errors (ConsoleError s x # es) = (s, x) # console_errors es"
  "console_errors (xs @ ys) = console_errors xs @ console_errors ys"
  by (simp_all add: console_errors_def)

lemma dispatch_effects_simps:
  "dispatch_effects eff out site [] = []"
  "dispatch_effects eff out site (x # xs) =
     eff x # (case out x of None \<Rightarrow> [] | Some e \<Rightarrow> [ConsoleError (site x) e])
       @ dispatch_effects eff out site xs"
  by (simp_all add: dispatch_effects_def)

lemma message_calls_dispatch:
  "message_calls (dispatch_effects (\<lambda>c. MessageCallback c m) out site cs) = map (\<lambda>c. (c, m)) cs"
  by (induction cs) (simp_all add: message_calls_simps dispatch_effects_simps split: option.splits)

lemma call_calls_dispatch:
  "call_calls (dispatch_effects (\<lambda>x. CallCallback (g x) d) out site xs) = map (\<lambda>x. (g x, d)) xs"
  by (induction xs) (simp_all add: call_calls_simps dispatch_effects_simps split: option.splits)

lemma message_calls_call_dispatch:
  "message_calls (dispatch_effects (\<lambda>x. CallCallback (g x) d) out site xs) = []"
  by (induction xs) (simp_all add: message_calls_simps dispatch_effects_simps split: option.splits)

lemma call_calls_message_dispatch:
  "call_calls (dispatch_effects (\<lambda>c. MessageCallback c m) out site cs) = []"
  by (induction cs) (simp_all add: call_calls_simps dispatch_effects_simps split: option.splits)

lemma console_errors_message_dispatch:
  "console_errors (dispatch_effects (\<lambda>c. MessageCallback c m) out site cs) =
     concat (map (\<lambda>x. case out x of None \<Rightarrow> [] | Some e \<Rightarrow> [(site x, e)]) cs)"
  by (induction cs) (simp_all add: console_errors_simps dispatch_effects_simps split: option.splits)

lemma console_errors_call_dispatch:
  "console_errors (dispatch_effects (\<lambda>x. CallCallback (g x) d) out site xs) =
     concat (map (\<lambda>x. case out x of None \<Rightarrow> [] | Some e \<Rightarrow> [(site x, e)]) xs)"
  by (induction xs) (simp_all add: console_errors_simps dispatch_effects_simps split: option.splits)

lemma emits_simps:
  "emits [] = []"
  "emits (e # es) = (case e of Emit n as \<Rightarrow> [(n, as)] | _ \<Rightarrow> []) @ emits es"
  "emits (xs @ ys) = emits xs @ emits ys"
  by (simp_all add: emits_def)

lemma alerts_simps:
  "alerts [] = 0"
  "alerts (e # es) = (if e = AlertMicrophoneRequired then 1 else 0) + alerts es"
  "alerts (xs @ ys) = alerts xs + alerts ys"
  by (simp_all add: alerts_def)

subsection \<open>Delivery to a bound socket\<close>

lemma filter_bound:
  "map snd (filter (\<lambda>b. fst b = ''message'') bound_listeners) = [HandleReceiveMessage]"
  "map snd (filter (\<lambda>b. fst b = ''receive_message'') bound_listeners) = [HandleReceiveMessage]"
  "map snd (filter (\<lambda>b. fst b = ''connect'') bound_listeners) = [HandleConnect]"
  "map snd (filter (\<lambda>b. fst b = ''incoming_call'') bound_listeners) = [HandleIncomingCall]"
  "map snd (filter (\<lambda>b. fst b = ''call_cancelled'') bound_listeners) = [HandleCallCancelled]"
  by (simp_all add: bound_listeners_def)

lemma listeningD:
  "listening p \<Longrightarrow> \<exists>s. socketRef p = Some s \<and> listeners s = bound_listeners \<and> anyListeners s = [OnAnyFallback]"
  by (auto simp: listening_def split: option.splits)

lemma deliver_message:
  assumes "listening p"
  shows "deliver E (InMessage m) p = handleReceiveMessage E m p"
    and "deliver E (InReceiveMessage m) p = handleReceiveMessage E m p"
proof -
  obtain s where s: "socketRef p = Some s" "listeners s = bound_listeners" "anyListeners s = [OnAnyFallback]"
    using listeningD[OF assms] by blast
  have same: "p\<lparr>socketRef := Some s\<rparr> = p" using s(1) by simp
  show "deliver E (InMessage m) p = handleReceiveMessage E m p"
    by (simp add: deliver_def s transport_update_def reserved_def eventName_def onAnyListener_def
        filter_bound run_handler_def same handleReceiveMessage_eq)
  show "deliver E (InReceiveMessage m) p = handleReceiveMessage E m p"
    by (simp add: deliver_def s transport_update_def reserved_def eventName_def onAnyListener_def
        filter_bound run_handler_def same handleReceiveMessage_eq)
qed

lemma initSocket_listening: "token \<noteq> [] \<Longrightarrow> listening (initSocket E (Some token) p)"
  by (simp add: initSocket_def listening_def Let_def)

subsection \<open>The sample inputs\<close>

lemma sample_listening: "listening sample_provider"
  by (simp add: sample_provider_def subscribeToIncomingCalls_def subscribeToMessages_def
      initSocket_def listening_def Let_def)

lemma sample_fields:
  "unreadMessageCount sample_provider = 0"
  "messageSubscribers sample_provider = [7]"
  "callSubscribers sample_provider = [7]"
  "timers sample_provider = [(100, LogListenerCount)]"
  "clock sample_provider = 0"
  by (simp_all add: sample_provider_def subscribeToIncomingCalls_def subscribeToMessages_def
      initSocket_def Let_def initial_provider_def Set_add_def log_effect_def)

lemma sample_trace:
  "trace sample_provider = [IoOpen ''https://example.invalid'' (socket_options ''Bearer abc'')]"
  by (simp add: sample_provider_def subscribeToIncomingCalls_def subscribeToMessages_def
      initSocket_def Let_def initial_provider_def log_effect_def sample_env_def)

lemma sample_projections:
  "call_calls (trace sample_provider) = []"
  "message_calls (trace sample_provider) = []"
  "console_errors (trace sample_provider) = []"
  "emits (trace sample_provider) = []"
  "alerts (trace sample_provider) = 0"
  "offline_requests (trace sample_provider) = 0"
  by (simp_all add: sample_trace call_calls_def message_calls_def console_errors_def emits_def
      alerts_def offline_requests_def)

subsection \<open>The incoming-call handler\<close>

lemma handleIncomingCall_denied:
  assumes "permission_denied E"
  shows "handleIncomingCall E d p =
     (Normal, p\<lparr>trace := trace p @ [PermissionCheck (Platform_OS E),
        PermissionRequest (Platform_OS E), AlertMicrophoneRequired]\<rparr>)"
  using assms
  by (simp add: permission_denied_def handleIncomingCall_def try_catch_def permission_block_def
      Let_def log_effect_def)

lemma handleIncomingCall_admitted:
  assumes "\<not> permission_denied E"
  shows "\<exists>pre. call_calls pre = [] \<and> message_calls pre = [] \<and> alerts pre = 0 \<and> emits pre = []
           \<and> handleIncomingCall E d p =
               notify_call_subscribers E d (ios_branch E d (p\<lparr>trace := trace p @ pre\<rparr>))"
proof (cases "check_outcome E")
  case (Inl e)
  then have "handleIncomingCall E d p = notify_call_subscribers E d (ios_branch E d
      (p\<lparr>trace := trace p @ [PermissionCheck (Platform_OS E), ConsoleError MicPermissionCheckFailed e]\<rparr>))"
    by (simp add: handleIncomingCall_def try_catch_def permission_block_def Let_def log_effect_def
        console_error_def)
  moreover have "call_calls [PermissionCheck (Platform_OS E), ConsoleError MicPermissionCheckFailed e] = []"
    "message_calls [PermissionCheck (Platform_OS E), ConsoleError MicPermissionCheckFailed e] = []"
    "alerts [PermissionCheck (Platform_OS E), ConsoleError MicPermissionCheckFailed e] = 0"
    "emits [PermissionCheck (Platform_OS E), ConsoleError MicPermissionCheckFailed e] = []"
    by (simp_all add: call_calls_def message_calls_def alerts_def emits_def)
  ultimately show ?thesis by blast
next
  case (Inr has)
  show ?thesis
  proof (cases has)
    case True
    with Inr have "handleIncomingCall E d p = notify_call_subscribers E d (ios_branch E d
        (p\<lparr>trace := trace p @ [PermissionCheck (Platform_OS E)]\<rparr>))"
      by (simp add: handleIncomingCall_def try_catch_def permission_block_def Let_def log_effect_def)
    moreover have "call_calls [PermissionCheck (Platform_OS E)] = []"
      "message_calls [PermissionCheck (Platform_OS E)] = []"
      "alerts [PermissionCheck (Platform_OS E)] = 0"
      "emits [PermissionCheck (Platform_OS E)] = []"
      by (simp_all add: call_calls_def message_calls_def alerts_def emits_def)
    ultimately show ?thesis by blast
  next
    case False
    show ?thesis
    proof (cases "request_outcome E")
      case (Inl e)
      with Inr False have "handleIncomingCall E d p = notify_call_subscribers E d (ios_branch E d
          (p\<lparr>trace := trace p @ [PermissionCheck (Platform_OS E), PermissionRequest (Platform_OS E),
             ConsoleError MicPermissionCheckFailed e]\<rparr>))"
        by (simp add: handleIncomingCall_def try_catch_def permission_block_def Let_def log_effect_def
            console_error_def)
      moreover have "call_calls [PermissionCheck (Platform_OS E), PermissionRequest (Platform_OS E),
             ConsoleError MicPermissionCheckFailed e] = []"
        "message_calls [PermissionCheck (Platform_OS E), PermissionRequest (Platform_OS E),
             ConsoleError MicPermissionCheckFailed e] = []"
        "alerts [PermissionCheck (Platform_OS E), PermissionRequest (Platform_OS E),
             ConsoleError MicPermissionCheckFailed e] = 0"
        "emits [PermissionCheck (Platform_OS E), PermissionRequest (Platform_OS E),
             ConsoleError MicPermissionCheckFailed e] = []"
        by (simp_all add: call_calls_def message_calls_def alerts_def emits_def)
      ultimately show ?thesis by blast
    next
      case (Inr has')
      with \<open>check_outcome E = Inr has\<close> False assms have has': "has'"
        by (simp add: permission_denied_def)
      with Inr \<open>check_outcome E = Inr has\<close> False
      have "handleIncomingCall E d p = notify_call_subscribers E d (ios_branch E d
          (p\<lparr>trace := trace p @ [PermissionCheck (Platform_OS E), PermissionRequest (Platform_OS E)]\<rparr>))"
        by (simp add: handleIncomingCall_def try_catch_def permission_block_def Let_def log_effect_def)
      moreover have "call_calls [PermissionCheck (Platform_OS E), PermissionRequest (Platform_OS E)] = []"
        "message_calls [PermissionCheck (Platform_OS E), PermissionRequest (Platform_OS E)] = []"
        "alerts [PermissionCheck (Platform_OS E), PermissionRequest (Platform_OS E)] = 0"
        "emits [PermissionCheck (Platform_OS E), PermissionRequest (Platform_OS E)] = []"
        by (simp_all add: call_calls_def message_calls_def alerts_def emits_def)
      ultimately show ?thesis by blast
    qed
  qed
qed

lemma ios_branch_frame:
  "\<exists>post. call_calls post = [] \<and> message_calls post = [] \<and> alerts post = 0 \<and> emits post = []
      \<and> trace (ios_branch E d q) = trace q @ post"
  "callSubscribers (ios_branch E d q) = callSubscribers q"
  "messageSubscribers (ios_branch E d q) = messageSubscribers q"
  "unreadMessageCount (ios_branch E d q) = unreadMessageCount q"
  "socketRef (ios_branch E d q) = socketRef q"
  "isConnected (ios_branch E d q) = isConnected q"
proof -
  show "\<exists>post. call_calls post = [] \<and> message_calls post = [] \<and> alerts post = 0 \<and> emits post = []
      \<and> trace (ios_branch E d q) = trace q @ post"
  proof (cases "Platform_OS E = IOS")
    case False
    then have "trace (ios_branch E d q) = trace q @ []" by (simp add: ios_branch_def)
    then show ?thesis
      by (intro exI[of _ "[]"]) (simp add: call_calls_def message_calls_def alerts_def emits_def)
  next
    case True
    show ?thesis
    proof (cases "AppState_currentState E = Active")
      case act: True
      show ?thesis
      proof (cases "socket_disconnected q")
        case True
        with act \<open>Platform_OS E = IOS\<close> have "trace (ios_branch E d q) = trace q @ [SocketConnectCall]"
          by (simp add: ios_branch_def log_effect_def)
        then show ?thesis
          by (intro exI[of _ "[SocketConnectCall]"]) (simp add: call_calls_def message_calls_def alerts_def emits_def)
      next
        case False
        with act \<open>Platform_OS E = IOS\<close> have "trace (ios_branch E d q) = trace q @ []"
          by (simp add: ios_branch_def)
        then show ?thesis
          by (intro exI[of _ "[]"]) (simp add: call_calls_def message_calls_def alerts_def emits_def)
      qed
    next
      case False
      with True have "trace (ios_branch E d q) = trace q @ [ShowIncomingCallNotification d]"
        by (simp add: ios_branch_def log_effect_def Let_def)
      then show ?thesis
        by (intro exI[of _ "[ShowIncomingCallNotification d]"])
           (simp add: call_calls_def message_calls_def alerts_def emits_def)
    qed
  qed
qed (simp_all add: ios_branch_def log_effect_def Let_def)

lemma alerts_dispatch:
  "alerts (dispatch_effects (\<lambda>x. CallCallback (g x) d) out site xs) = 0"
  by (induction xs) (simp_all add: alerts_simps dispatch_effects_simps split: option.splits)

lemma map_snd_enumerate_pair:
  "map (\<lambda>x. (snd x, d)) (enumerate n xs) = map (\<lambda>c. (c, d)) xs"
  by (induction xs arbitrary: n) simp_all

lemma handleIncomingCall_dispatch:
  assumes "\<not> permission_denied E"
  shows "fst (handleIncomingCall E d p) = Normal"
    and "call_calls (trace (snd (handleIncomingCall E d p))) =
           call_calls (trace p) @ map (\<lambda>c. (c, d)) (callSubscribers p)"
    and "alerts (trace (snd (handleIncomingCall E d p))) = alerts (trace p)"
    and "message_calls (trace (snd (handleIncomingCall E d p))) = message_calls (trace p)"
    and "callSubscribers (snd (handleIncomingCall E d p)) = callSubscribers p"
    and "messageSubscribers (snd (handleIncomingCall E d p)) = messageSubscribers p"
proof -
  obtain pre where pre: "call_calls pre = []" "message_calls pre = []" "alerts pre = 0"
    and eq: "handleIncomingCall E d p =
               notify_call_subscribers E d (ios_branch E d (p\<lparr>trace := trace p @ pre\<rparr>))"
    using handleIncomingCall_admitted[OF assms] by blast
  define q where "q = p\<lparr>trace := trace p @ pre\<rparr>"
  obtain post where post: "call_calls post = []" "message_calls post = []" "alerts post = 0"
    and tr: "trace (ios_branch E d q) = trace q @ post"
    using ios_branch_frame(1)[of E d q] by blast
  have subs: "callSubscribers (ios_branch E d q) = callSubscribers p"
     "messageSubscribers (ios_branch E d q) = messageSubscribers p"
    by (simp_all add: ios_branch_frame q_def)
  have eq': "handleIncomingCall E d p = notify_call_subscribers E d (ios_branch E d q)"
    using eq by (simp add: q_def)
  have trq: "trace q = trace p @ pre"
    by (simp add: q_def)
  show "fst (handleIncomingCall E d p) = Normal"
    by (simp add: eq' notify_call_subscribers_eq)
  show "call_calls (trace (snd (handleIncomingCall E d p))) =
           call_calls (trace p) @ map (\<lambda>c. (c, d)) (callSubscribers p)"
    by (simp add: eq' notify_call_subscribers_eq tr subs call_calls_simps pre post trq
        call_calls_dispatch[where g = snd] map_snd_enumerate_pair)
  show "alerts (trace (snd (handleIncomingCall E d p))) = alerts (trace p)"
    by (simp add: eq' notify_call_subscribers_eq tr alerts_simps pre post trq
        alerts_dispatch[where g = snd])
  show "message_calls (trace (snd (handleIncomingCall E d p))) = message_calls (trace p)"
    by (simp add: eq' notify_call_subscribers_eq tr message_calls_simps pre post trq
        message_calls_call_dispatch[where g = snd])
  show "callSubscribers (snd (handleIncomingCall E d p)) = callSubscribers p"
    by (simp add: eq' notify_call_subscribers_eq subs)
  show "messageSubscribers (snd (handleIncomingCall E d p)) = messageSubscribers p"
    by (simp add: eq' notify_call_subscribers_eq subs)
qed

lemma permission_failed_not_denied: "permission_failed E \<Longrightarrow> \<not> permission_denied E"
  by (auto simp: permission_failed_def permission_denied_def)

lemma env_facts:
  "permission_denied denying_env"
  "permission_failed failing_env"
  "\<not> permission_denied sample_env"
  by (simp_all add: permission_denied_def permission_failed_def denying_env_def failing_env_def
      sample_env_def check_outcome_def request_outcome_def)

subsection \<open>Connection events and timers\<close>

lemma deliver_connect:
  assumes "socketRef p = Some s" "listeners s = bound_listeners"
  shows "deliver E InConnect p =
     (Normal, p\<lparr>socketRef := Some (s\<lparr>connected := True\<rparr>), isConnected := True,
                 timers := timers p @ [(clock p + 1000, EmitGetOfflineMessages)]\<rparr>)"
  by (simp add: deliver_def assms transport_update_def reserved_def eventName_def
      filter_bound run_handler_def handleConnect_def)

lemma offline_requests_simps:
  "offline_requests (es @ [Emit ''get_offline_messages'' as]) = Suc (offline_requests es)"
  "offline_requests (es @ [SocketConnectCall]) = offline_requests es"
  by (simp_all add: offline_requests_def emits_def)

lemma run_timer_action_count:
  "offline_requests (trace (run_timer_action a q)) =
     offline_requests (trace q) + (if a = EmitGetOfflineMessages then 1 else 0)"
  by (cases a) (simp_all add: run_timer_action_def log_effect_def offline_requests_simps)

lemma fire_count:
  "offline_requests (trace (foldl (\<lambda>q t. run_timer_action (snd t) q) b ts)) =
     offline_requests (trace b) + length (filter (\<lambda>t. snd t = EmitGetOfflineMessages) ts)"
  by (induction ts arbitrary: b) (simp_all add: run_timer_action_count)

lemma length_filter_sort_key:
  "length (filter P (sort_key f xs)) = length (filter P xs)"
  by (simp add: filter_sort)

lemma advance_count:
  "offline_requests (trace (advance dt p)) =
     offline_requests (trace p) +
     length (filter (\<lambda>t. snd t = EmitGetOfflineMessages) (filter (\<lambda>t. fst t \<le> clock p + dt) (timers p)))"
  by (simp add: advance_def Let_def fire_count length_filter_sort_key)

subsection \<open>Call events reach their handler through both listeners\<close>

lemma deliver_call_cancelled:
  assumes "listening p"
  shows "deliver E (InCallCancelled (Some obj)) p =
           handleCallCancelled E (Some obj) (snd (handleCallCancelled E (Some obj) p))"
proof -
  obtain s where s: "socketRef p = Some s" "listeners s = bound_listeners" "anyListeners s = [OnAnyFallback]"
    using listeningD[OF assms] by blast
  have same: "p\<lparr>socketRef := Some s\<rparr> = p" using s(1) by simp
  show ?thesis
    by (simp add: deliver_def s transport_update_def reserved_def eventName_def onAnyListener_def
        filter_bound run_handler_def same handleCallCancelled_eq)
qed

lemma deliver_incoming_call:
  assumes "listening p"
  shows "deliver E (InIncomingCall (Some obj)) p =
           (Normal, snd (handleIncomingCall E (Some obj) (snd (handleIncomingCall E (Some obj) p))))"
proof -
  obtain s where s: "socketRef p = Some s" "listeners s = bound_listeners" "anyListeners s = [OnAnyFallback]"
    using listeningD[OF assms] by blast
  have same: "p\<lparr>socketRef := Some s\<rparr> = p" using s(1) by simp
  show ?thesis
    by (simp add: deliver_def s transport_update_def reserved_def eventName_def onAnyListener_def
        filter_bound run_handler_def same call_async_def)
qed

lemma call_events_delivered_twice:
  assumes "listening p"
  shows "call_calls (trace (snd (deliver E (InCallCancelled (Some obj)) p))) =
           call_calls (trace p)
           @ map (\<lambda>c. (c, Some (cancelled_payload (Some obj)))) (callSubscribers p)
           @ map (\<lambda>c. (c, Some (cancelled_payload (Some obj)))) (callSubscribers p)"
    and "\<not> permission_denied E \<Longrightarrow>
         call_calls (trace (snd (deliver E (InIncomingCall (Some obj)) p))) =
           call_calls (trace p)
           @ map (\<lambda>c. (c, Some obj)) (callSubscribers p)
           @ map (\<lambda>c. (c, Some obj)) (callSubscribers p)"
proof -
  show "call_calls (trace (snd (deliver E (InCallCancelled (Some obj)) p))) =
           call_calls (trace p)
           @ map (\<lambda>c. (c, Some (cancelled_payload (Some obj)))) (callSubscribers p)
           @ map (\<lambda>c. (c, Some (cancelled_payload (Some obj)))) (callSubscribers p)"
    by (simp add: deliver_call_cancelled[OF assms] handleCallCancelled_eq call_calls_simps
        call_calls_dispatch[where g = "\<lambda>c. c"])
  assume adm: "\<not> permission_denied E"
  show "call_calls (trace (snd (deliver E (InIncomingCall (Some obj)) p))) =
           call_calls (trace p)
           @ map (\<lambda>c. (c, Some obj)) (callSubscribers p)
           @ map (\<lambda>c. (c, Some obj)) (callSubscribers p)"
    by (simp add: deliver_incoming_call[OF assms] handleIncomingCall_dispatch[OF adm])
qed

subsection \<open>The router, step by step\<close>

lemma Set_add_set: "set (Set_add x xs) = insert x (set xs)"
  by (auto simp: Set_add_def)

lemma Set_delete_set: "set (Set_delete x xs) = set xs - {x}"
  by (auto simp: Set_delete_def)

lemma Set_distinct:
  "distinct xs \<Longrightarrow> distinct (Set_add x xs)"
  "distinct xs \<Longrightarrow> distinct (Set_delete x xs)"
  by (simp_all add: Set_add_def Set_delete_def distinct_removeAll)

lemma Set_add_idem: "Set_add x (Set_add x xs) = Set_add x xs"
  by (simp add: Set_add_def)

lemma received_from_dispatch:
  "distinct xs \<Longrightarrow>
     map snd (filter (\<lambda>x. fst x = c) (map (\<lambda>c'. (c', v)) xs)) = (if c \<in> set xs then [v] else [])"
  by (induction xs) auto

lemma received_none:
  "c \<notin> set xs \<Longrightarrow> filter (\<lambda>x. fst x = c) (map (\<lambda>c'. (c', v)) xs) = []"
  by (induction xs) auto

lemma handleIncomingCall_frame:
  "callSubscribers (snd (handleIncomingCall E d p)) = callSubscribers p"
  "messageSubscribers (snd (handleIncomingCall E d p)) = messageSubscribers p"
  "message_calls (trace (snd (handleIncomingCall E d p))) = message_calls (trace p)"
  "call_calls (trace (snd (handleIncomingCall E d p))) =
     call_calls (trace p) @ (if permission_denied E then [] else map (\<lambda>c. (c, d)) (callSubscribers p))"
proof -
  show "callSubscribers (snd (handleIncomingCall E d p)) = callSubscribers p"
    by (cases "permission_denied E")
       (simp_all add: handleIncomingCall_denied handleIncomingCall_dispatch)
  show "messageSubscribers (snd (handleIncomingCall E d p)) = messageSubscribers p"
    by (cases "permission_denied E")
       (simp_all add: handleIncomingCall_denied handleIncomingCall_dispatch)
  show "message_calls (trace (snd (handleIncomingCall E d p))) = message_calls (trace p)"
  proof (cases "permission_denied E")
    case True
    then show ?thesis by (simp add: handleIncomingCall_denied message_calls_def)
  next
    case False
    then show ?thesis by (rule handleIncomingCall_dispatch)
  qed
  show "call_calls (trace (snd (handleIncomingCall E d p))) =
     call_calls (trace p) @ (if permission_denied E then [] else map (\<lambda>c. (c, d)) (callSubscribers p))"
  proof (cases "permission_denied E")
    case True
    then show ?thesis by (simp add: handleIncomingCall_denied call_calls_def)
  next
    case False
    then show ?thesis by (simp add: handleIncomingCall_dispatch)
  qed
qed

lemma router_step_messages:
  "messageSubscribers (router_step E p operation) =
     (case operation of
        SubscribeMessages c' \<Rightarrow> Set_add c' (messageSubscribers p)
      | UnsubscribeMessages c' \<Rightarrow> Set_delete c' (messageSubscribers p)
      | _ \<Rightarrow> messageSubscribers p)"
  "message_calls (trace (router_step E p operation)) =
     message_calls (trace p) @
     (case operation of
        PublishMessage m \<Rightarrow> map (\<lambda>c. (c, m)) (messageSubscribers p)
      | _ \<Rightarrow> [])"
  by (cases operation;
      simp add: router_step_def subscribeToMessages_def subscribeToIncomingCalls_def
        handleReceiveMessage_eq handleCallCancelled_eq handleIncomingCall_frame
        message_calls_simps message_calls_dispatch message_calls_call_dispatch[where g = "\<lambda>c. c"])+

lemma router_step_calls:
  "callSubscribers (router_step E p operation) =
     (case operation of
        SubscribeCalls c' \<Rightarrow> Set_add c' (callSubscribers p)
      | UnsubscribeCalls c' \<Rightarrow> Set_delete c' (callSubscribers p)
      | _ \<Rightarrow> callSubscribers p)"
  "call_calls (trace (router_step E p operation)) =
     call_calls (trace p) @
     (case operation of
        PublishIncomingCall d \<Rightarrow>
          if permission_denied E then [] else map (\<lambda>c. (c, d)) (callSubscribers p)
      | PublishCallCancelled d \<Rightarrow> map (\<lambda>c. (c, Some (cancelled_payload d))) (callSubscribers p)
      | _ \<Rightarrow> [])"
  by (cases operation;
      simp add: router_step_def subscribeToMessages_def subscribeToIncomingCalls_def
        handleReceiveMessage_eq handleCallCancelled_eq handleIncomingCall_frame
        call_calls_simps call_calls_dispatch[where g = "\<lambda>c. c"] call_calls_message_dispatch)+

lemma router_run_Cons: "router_run E (operation # ops) p = router_run E ops (router_step E p operation)"
  by (simp add: router_run_def)

lemma router_step_distinct:
  "distinct (messageSubscribers p) \<Longrightarrow> distinct (messageSubscribers (router_step E p operation))"
  "distinct (callSubscribers p) \<Longrightarrow> distinct (callSubscribers (router_step E p operation))"
  by (cases operation; simp add: router_step_messages router_step_calls Set_distinct)+

lemma messages_run:
  "distinct (messageSubscribers p) \<Longrightarrow>
     messages_received c (router_run E ops p) =
       messages_received c p @ messages_while_registered c (c \<in> set (messageSubscribers p)) ops"
proof (induction ops arbitrary: p)
  case Nil
  show ?case by (simp add: router_run_def)
next
  case (Cons operation ops)
  have d: "distinct (messageSubscribers (router_step E p operation))"
    using Cons.prems by (rule router_step_distinct)
  have step: "messages_received c (router_step E p operation) =
      messages_received c p @
      (case operation of PublishMessage m \<Rightarrow> if c \<in> set (messageSubscribers p) then [m] else [] | _ \<Rightarrow> [])"
    using Cons.prems
    by (cases operation)
       (simp_all add: messages_received_def router_step_messages received_from_dispatch)
  have reg: "(c \<in> set (messageSubscribers (router_step E p operation))) =
      (case operation of
         SubscribeMessages c' \<Rightarrow> c \<in> set (messageSubscribers p) \<or> c' = c
       | UnsubscribeMessages c' \<Rightarrow> c \<in> set (messageSubscribers p) \<and> c' \<noteq> c
       | _ \<Rightarrow> c \<in> set (messageSubscribers p))"
    by (cases operation) (auto simp: router_step_messages Set_add_set Set_delete_set)
  show ?case
    unfolding router_run_Cons Cons.IH[OF d] step reg
    by (cases operation) simp_all
qed

lemma calls_run:
  "distinct (callSubscribers p) \<Longrightarrow>
     calls_received c (router_run E ops p) =
       calls_received c p @ calls_while_registered E c (c \<in> set (callSubscribers p)) ops"
proof (induction ops arbitrary: p)
  case Nil
  show ?case by (simp add: router_run_def)
next
  case (Cons operation ops)
  have d: "distinct (callSubscribers (router_step E p operation))"
    using Cons.prems by (rule router_step_distinct)
  have step: "calls_received c (router_step E p operation) =
      calls_received c p @
      (case operation of
         PublishIncomingCall d \<Rightarrow>
           if c \<in> set (callSubscribers p) \<and> \<not> permission_denied E then [d] else []
       | PublishCallCancelled d \<Rightarrow>
           if c \<in> set (callSubscribers p) then [Some (cancelled_payload d)] else []
       | _ \<Rightarrow> [])"
    using Cons.prems
    by (cases operation)
       (simp_all add: calls_received_def router_step_calls received_from_dispatch received_none)
  have reg: "(c \<in> set (callSubscribers (router_step E p operation))) =
      (case operation of
         SubscribeCalls c' \<Rightarrow> c \<in> set (callSubscribers p) \<or> c' = c
       | UnsubscribeCalls c' \<Rightarrow> c \<in> set (callSubscribers p) \<and> c' \<noteq> c
       | _ \<Rightarrow> c \<in> set (callSubscribers p))"
    by (cases operation) (auto simp: router_step_calls Set_add_set Set_delete_set)
  show ?case
    unfolding router_run_Cons Cons.IH[OF d] step reg
    by (cases operation) simp_all
qed

lemma nothing_while_unregistered:
  "SubscribeMessages c \<notin> set ops \<Longrightarrow> messages_while_registered c False ops = []"
  "SubscribeCalls c \<notin> set ops \<Longrightarrow> calls_while_registered E c False ops = []"
proof -
  show "SubscribeMessages c \<notin> set ops \<Longrightarrow> messages_while_registered c False ops = []"
    by (induction c "False" ops rule: messages_while_registered.induct) auto
  show "SubscribeCalls c \<notin> set ops \<Longrightarrow> calls_while_registered E c False ops = []"
    by (induction E c "False" ops rule: calls_while_registered.induct) auto
qed

lemma permission_effects_dispatch:
  "permission_effects (dispatch_effects (\<lambda>x. CallCallback (g x) d) out site xs) = []"
  by (induction xs) (simp_all add: permission_effects_def dispatch_effects_simps split: option.splits)

text \<open>One run of the cancellation handler asks for no permission, shows no alert and does
  not look at the platform, the application state or the permission outcomes.\<close>

lemma handleCallCancelled_ungated:
  "permission_effects (trace (snd (handleCallCancelled E d p))) = permission_effects (trace p)"
  "call_callback E' = call_callback E \<Longrightarrow> handleCallCancelled E' d p = handleCallCancelled E d p"
proof -
  have "permission_effects (trace p @ es) = permission_effects (trace p) @ permission_effects es" for es
    by (simp add: permission_effects_def)
  then show "permission_effects (trace (snd (handleCallCancelled E d p))) = permission_effects (trace p)"
    by (simp add: handleCallCancelled_eq permission_effects_dispatch[where g = "\<lambda>c. c"])
  show "call_callback E' = call_callback E \<Longrightarrow> handleCallCancelled E' d p = handleCallCancelled E d p"
    by (simp add: handleCallCancelled_eq)
qed

lemma sample_callbacks:
  "message_callback sample_env c m = (if c = 1 then Some (Error ''boom'') else None)"
  "call_callback sample_env c d = (if c = 1 then Some (Error ''boom'') else None)"
  by (simp_all add: sample_env_def)

section \<open>Isolation of subscriber callbacks\<close>

text \<open>
  Claim C1. In every dispatch of an inbound event to a subscriber set (a message, an
  incoming call, a cancelled call), a callback that throws is caught and its error is
  written to the error output; every registered callback is called with the same event, in
  registration order, whether or not an earlier one threw; and the handler completes
  normally, so nothing propagates to the wire-event layer.
\<close>

theorem dispatch_isolated:
  "fst (handleReceiveMessage E m p) = Normal
   \<and> message_calls (trace (snd (handleReceiveMessage E m p))) =
       message_calls (trace p) @ map (\<lambda>c. (c, m)) (messageSubscribers p)
   \<and> console_errors (trace (snd (handleReceiveMessage E m p))) =
       console_errors (trace p) @
       concat (map (\<lambda>c. case message_callback E c m of None \<Rightarrow> []
                         | Some e \<Rightarrow> [(MessageCallbackFailed, e)]) (messageSubscribers p))
   \<and> fst (handleIncomingCall E d p) = Normal
   \<and> (\<not> permission_denied E \<longrightarrow>
        call_calls (trace (snd (handleIncomingCall E d p))) =
          call_calls (trace p) @ map (\<lambda>c. (c, d)) (callSubscribers p))
   \<and> fst (notify_call_subscribers E d p) = Normal
   \<and> call_calls (trace (snd (notify_call_subscribers E d p))) =
       call_calls (trace p) @ map (\<lambda>c. (c, d)) (callSubscribers p)
   \<and> console_errors (trace (snd (notify_call_subscribers E d p))) =
       console_errors (trace p) @
       concat (map (\<lambda>x. case call_callback E (snd x) d of None \<Rightarrow> []
                         | Some e \<Rightarrow> [(CallSubscriberFailed (fst x), e)])
                   (enumerate 1 (callSubscribers p)))
   \<and> fst (handleCallCancelled E d p) = Normal
   \<and> call_calls (trace (snd (handleCallCancelled E d p))) =
       call_calls (trace p) @ map (\<lambda>c. (c, Some (cancelled_payload d))) (callSubscribers p)
   \<and> console_errors (trace (snd (handleCallCancelled E d p))) =
       console_errors (trace p) @
       concat (map (\<lambda>c. case call_callback E c (Some (cancelled_payload d)) of None \<Rightarrow> []
                         | Some e \<Rightarrow> [(CallCancelledCallbackFailed, e)]) (callSubscribers p))"
proof -
  have inc: "fst (handleIncomingCall E d p) = Normal"
    by (cases "permission_denied E")
       (simp_all add: handleIncomingCall_denied handleIncomingCall_dispatch)
  have adm: "\<not> permission_denied E \<longrightarrow>
        call_calls (trace (snd (handleIncomingCall E d p))) =
          call_calls (trace p) @ map (\<lambda>c. (c, d)) (callSubscribers p)"
    by (simp add: handleIncomingCall_dispatch)
  have rest: "fst (handleReceiveMessage E m p) = Normal
   \<and> message_calls (trace (snd (handleReceiveMessage E m p))) =
       message_calls (trace p) @ map (\<lambda>c. (c, m)) (messageSubscribers p)
   \<and> console_errors (trace (snd (handleReceiveMessage E m p))) =
       console_errors (trace p) @
       concat (map (\<lambda>c. case message_callback E c m of None \<Rightarrow> []
                         | Some e \<Rightarrow> [(MessageCallbackFailed, e)]) (messageSubscribers p))
   \<and> fst (notify_call_subscribers E d p) = Normal
   \<and> call_calls (trace (snd (notify_call_subscribers E d p))) =
       call_calls (trace p) @ map (\<lambda>c. (c, d)) (callSubscribers p)
   \<and> console_errors (trace (snd (notify_call_subscribers E d p))) =
       console_errors (trace p) @
       concat (map (\<lambda>x. case call_callback E (snd x) d of None \<Rightarrow> []
                         | Some e \<Rightarrow> [(CallSubscriberFailed (fst x), e)])
                   (enumerate 1 (callSubscribers p)))
   \<and> fst (handleCallCancelled E d p) = Normal
   \<and> call_calls (trace (snd (handleCallCancelled E d p))) =
       call_calls (trace p) @ map (\<lambda>c. (c, Some (cancelled_payload d))) (callSubscribers p)
   \<and> console_errors (trace (snd (handleCallCancelled E d p))) =
       console_errors (trace p) @
       concat (map (\<lambda>c. case call_callback E c (Some (cancelled_payload d)) of None \<Rightarrow> []
                         | Some e \<Rightarrow> [(CallCancelledCallbackFailed, e)]) (callSubscribers p))"
    by (simp add: handleReceiveMessage_eq notify_call_subscribers_eq handleCallCancelled_eq
        map_snd_enumerate_pair message_calls_simps call_calls_simps console_errors_simps
        message_calls_dispatch call_calls_dispatch[where g = snd] call_calls_dispatch[where g = "\<lambda>c. c"]
        console_errors_message_dispatch console_errors_call_dispatch[where g = snd]
        console_errors_call_dispatch[where g = "\<lambda>c. c"])
  from inc adm rest show ?thesis by blast
qed

text \<open>With the subscribers 1 and 7 in each set, where callback 1 throws: 7 is still called,
  and the throw of 1 is in the error output.\<close>

theorem dispatch_isolated_witness:
  "fst (handleReceiveMessage sample_env sample_message
          (sample_provider\<lparr>messageSubscribers := [1, 7], callSubscribers := [1, 7]\<rparr>)) = Normal
   \<and> message_calls (trace (snd (handleReceiveMessage sample_env sample_message
          (sample_provider\<lparr>messageSubscribers := [1, 7], callSubscribers := [1, 7]\<rparr>)))) =
       [(1, sample_message), (7, sample_message)]
   \<and> console_errors (trace (snd (handleReceiveMessage sample_env sample_message
          (sample_provider\<lparr>messageSubscribers := [1, 7], callSubscribers := [1, 7]\<rparr>)))) =
       [(MessageCallbackFailed, Error ''boom'')]
   \<and> fst (handleIncomingCall sample_env (Some sample_call)
          (sample_provider\<lparr>messageSubscribers := [1, 7], callSubscribers := [1, 7]\<rparr>)) = Normal
   \<and> call_calls (trace (snd (handleIncomingCall sample_env (Some sample_call)
          (sample_provider\<lparr>messageSubscribers := [1, 7], callSubscribers := [1, 7]\<rparr>)))) =
       [(1, Some sample_call), (7, Some sample_call)]"
  using dispatch_isolated[of sample_env sample_message
      "sample_provider\<lparr>messageSubscribers := [1, 7], callSubscribers := [1, 7]\<rparr>" "Some sample_call"]
  by (simp add: env_facts sample_projections sample_callbacks)

section \<open>The unread counter under inbound messages\<close>

text \<open>
  Claim C2. Whenever the socket is bound, an inbound message event under either name
  (\<^verbatim>\<open>receive_message\<close> or \<^verbatim>\<open>message\<close>) raises the unread counter by exactly one, for any
  subscriber set.
\<close>

theorem unread_increment:
  "listening p \<Longrightarrow>
     unreadMessageCount (snd (deliver E (InReceiveMessage m) p)) = unreadMessageCount p + 1
   \<and> unreadMessageCount (snd (deliver E (InMessage m) p)) = unreadMessageCount p + 1"
  by (simp add: deliver_message handleReceiveMessage_eq)

theorem unread_increment_witness:
  "listening sample_provider
   \<and> unreadMessageCount (snd (deliver sample_env (InReceiveMessage sample_message) sample_provider)) = 1
   \<and> unreadMessageCount (snd (deliver sample_env (InMessage sample_message) sample_provider)) = 1"
  using unread_increment[OF sample_listening, of sample_env sample_message]
  by (simp add: sample_listening sample_fields)

section \<open>Incoming calls and the microphone permission\<close>

text \<open>What \<open>permission_denied\<close> and \<open>permission_failed\<close> say about the answers of the
  platform: denied is a check that resolves to anything but granted followed by a request
  that resolves to anything but granted; failed is a rejected check, or a check that
  resolves to not granted followed by a rejected request.\<close>

lemma permission_denied_iff:
  "permission_denied E =
     (case Platform_OS E of
        Android \<Rightarrow> android_check E = Resolves False
                   \<and> (\<exists>r. android_request E = Resolves r \<and> r \<noteq> AndroidGranted)
      | IOS \<Rightarrow> (\<exists>s. ios_check E = Resolves s \<and> s \<noteq> Granted)
               \<and> (\<exists>r. ios_request E = Resolves r \<and> r \<noteq> Granted))"
  by (cases "Platform_OS E"; cases "android_check E"; cases "android_request E";
      cases "ios_check E"; cases "ios_request E")
     (auto simp: permission_denied_def check_outcome_def request_outcome_def)

lemma permission_failed_iff:
  "permission_failed E =
     (case Platform_OS E of
        Android \<Rightarrow> (\<exists>e. android_check E = Rejects e)
                   \<or> (android_check E = Resolves False \<and> (\<exists>e. android_request E = Rejects e))
      | IOS \<Rightarrow> (\<exists>e. ios_check E = Rejects e)
               \<or> ((\<exists>s. ios_check E = Resolves s \<and> s \<noteq> Granted) \<and> (\<exists>e. ios_request E = Rejects e)))"
  by (cases "Platform_OS E"; cases "android_check E"; cases "android_request E";
      cases "ios_check E"; cases "ios_request E")
     (auto simp: permission_failed_def check_outcome_def request_outcome_def)

lemma env_facts_request:
  "\<not> permission_denied request_failing_env"
  "permission_failed request_failing_env"
  "\<not> permission_denied failing_env"
  by (simp_all add: permission_denied_iff permission_failed_iff request_failing_env_def
      failing_env_def sample_env_def)

text \<open>One run of the handler: when the permission is denied it shows exactly one alert and
  calls no subscriber; when the check or the request fails it goes on, shows no alert, and
  calls every registered call subscriber with the event.\<close>

lemma handleIncomingCall_one_run:
  "(permission_denied E \<longrightarrow>
      fst (handleIncomingCall E d p) = Normal
      \<and> alerts (trace (snd (handleIncomingCall E d p))) = alerts (trace p) + 1
      \<and> call_calls (trace (snd (handleIncomingCall E d p))) = call_calls (trace p))
   \<and> (permission_failed E \<longrightarrow>
      fst (handleIncomingCall E d p) = Normal
      \<and> call_calls (trace (snd (handleIncomingCall E d p))) =
          call_calls (trace p) @ map (\<lambda>c. (c, d)) (callSubscribers p)
      \<and> alerts (trace (snd (handleIncomingCall E d p))) = alerts (trace p))"
proof (intro conjI impI)
  assume den: "permission_denied E"
  show "fst (handleIncomingCall E d p) = Normal"
    by (simp add: handleIncomingCall_denied[OF den])
  show "alerts (trace (snd (handleIncomingCall E d p))) = alerts (trace p) + 1"
    by (simp add: handleIncomingCall_denied[OF den] alerts_simps)
  show "call_calls (trace (snd (handleIncomingCall E d p))) = call_calls (trace p)"
    by (simp add: handleIncomingCall_denied[OF den] call_calls_def)
next
  assume "permission_failed E"
  then have adm: "\<not> permission_denied E" by (rule permission_failed_not_denied)
  show "fst (handleIncomingCall E d p) = Normal"
    by (rule handleIncomingCall_dispatch(1)[OF adm])
  show "call_calls (trace (snd (handleIncomingCall E d p))) =
          call_calls (trace p) @ map (\<lambda>c. (c, d)) (callSubscribers p)"
    by (rule handleIncomingCall_dispatch(2)[OF adm])
  show "alerts (trace (snd (handleIncomingCall E d p))) = alerts (trace p)"
    by (rule handleIncomingCall_dispatch(3)[OF adm])
qed

lemma handleIncomingCall_one_run_sample:
  "permission_denied denying_env
   \<and> alerts (trace (snd (handleIncomingCall denying_env (Some sample_call) sample_provider))) = 1
   \<and> call_calls (trace (snd (handleIncomingCall denying_env (Some sample_call) sample_provider))) = []
   \<and> permission_failed failing_env
   \<and> call_calls (trace (snd (handleIncomingCall failing_env (Some sample_call) sample_provider))) =
       [(7, Some sample_call)]
   \<and> alerts (trace (snd (handleIncomingCall failing_env (Some sample_call) sample_provider))) = 0
   \<and> permission_failed request_failing_env
   \<and> call_calls (trace (snd (handleIncomingCall request_failing_env (Some sample_call) sample_provider))) =
       [(7, Some sample_call)]
   \<and> alerts (trace (snd (handleIncomingCall request_failing_env (Some sample_call) sample_provider))) = 0"
  using handleIncomingCall_one_run[of denying_env "Some sample_call" sample_provider]
    handleIncomingCall_one_run[of failing_env "Some sample_call" sample_provider]
    handleIncomingCall_one_run[of request_failing_env "Some sample_call" sample_provider]
  by (simp add: env_facts env_facts_request sample_fields sample_projections)

text \<open>One inbound event that carries a payload runs the handler twice, once from the
  catch-all listener and once from the listener bound to the name.\<close>

lemma incoming_call_event_denied:
  assumes "listening p" "permission_denied E"
  shows "snd (deliver E (InIncomingCall (Some obj)) p) =
     p\<lparr>trace := trace p @
        [PermissionCheck (Platform_OS E), PermissionRequest (Platform_OS E), AlertMicrophoneRequired,
         PermissionCheck (Platform_OS E), PermissionRequest (Platform_OS E), AlertMicrophoneRequired]\<rparr>"
  by (simp add: deliver_incoming_call[OF assms(1)] handleIncomingCall_denied[OF assms(2)])

lemma incoming_call_event_alerts:
  assumes "listening p"
  shows "permission_denied E \<Longrightarrow>
           alerts (trace (snd (deliver E (InIncomingCall (Some obj)) p))) = alerts (trace p) + 2"
    and "permission_denied E \<Longrightarrow>
           call_calls (trace (snd (deliver E (InIncomingCall (Some obj)) p))) = call_calls (trace p)"
    and "\<not> permission_denied E \<Longrightarrow>
           alerts (trace (snd (deliver E (InIncomingCall (Some obj)) p))) = alerts (trace p)"
proof -
  show "permission_denied E \<Longrightarrow>
           alerts (trace (snd (deliver E (InIncomingCall (Some obj)) p))) = alerts (trace p) + 2"
    by (simp add: incoming_call_event_denied[OF assms] alerts_simps)
  show "permission_denied E \<Longrightarrow>
           call_calls (trace (snd (deliver E (InIncomingCall (Some obj)) p))) = call_calls (trace p)"
    by (simp add: incoming_call_event_denied[OF assms] call_calls_def)
  show "\<not> permission_denied E \<Longrightarrow>
           alerts (trace (snd (deliver E (InIncomingCall (Some obj)) p))) = alerts (trace p)"
    by (simp add: deliver_incoming_call[OF assms] handleIncomingCall_dispatch)
qed

text \<open>
  Claim C3 asks that an inbound \<^verbatim>\<open>incoming_call\<close> event whose permission check ends in a
  denial shows exactly one prompt and calls no subscriber, and that an event whose check or
  request fails is still dispatched to every call subscriber. One run of the handler does
  that, but the event reaches the handler through both listeners: with the permission denied
  at the check and at the request, one event shows two alerts (and calls no subscriber);
  with a failing request or a failing check no alert is shown and the subscriber is called,
  twice.
\<close>

theorem incoming_call_prompted_twice:
  "alerts (trace (snd (deliver denying_env (InIncomingCall (Some sample_call)) sample_provider))) = 2
   \<and> call_calls (trace (snd (deliver denying_env (InIncomingCall (Some sample_call)) sample_provider))) = []
   \<and> alerts (trace (snd (deliver request_failing_env (InIncomingCall (Some sample_call)) sample_provider))) = 0
   \<and> call_calls (trace (snd (deliver request_failing_env (InIncomingCall (Some sample_call)) sample_provider))) =
       [(7, Some sample_call), (7, Some sample_call)]
   \<and> alerts (trace (snd (deliver failing_env (InIncomingCall (Some sample_call)) sample_provider))) = 0
   \<and> call_calls (trace (snd (deliver failing_env (InIncomingCall (Some sample_call)) sample_provider))) =
       [(7, Some sample_call), (7, Some sample_call)]"
  by (simp add: incoming_call_event_alerts[OF sample_listening]
      call_events_delivered_twice[OF sample_listening] env_facts env_facts_request
      sample_fields sample_projections)

section \<open>Cancelled calls on the wire\<close>

text \<open>
  Claim C4 asks that an inbound \<^verbatim>\<open>call_cancelled\<close> event reaches every call subscriber
  exactly once, tagged as a cancellation, without a permission check. One run of the
  handler does that (\<open>handleCallCancelled_eq\<close>, \<open>handleCallCancelled_ungated\<close>), but an event
  that carries a payload is handed to the handler by the catch-all listener and by the
  listener bound to the name: the one subscriber of the sample provider is called twice with
  the tagged payload.
\<close>

theorem call_cancelled_delivered_twice:
  "call_calls (trace (snd (deliver sample_env (InCallCancelled (Some sample_call)) sample_provider))) =
     [(7, Some (sample_call @ [(''eventType'', JStr ''call_cancelled'')])),
      (7, Some (sample_call @ [(''eventType'', JStr ''call_cancelled'')]))]"
proof -
  have "cancelled_payload (Some sample_call) = sample_call @ [(''eventType'', JStr ''call_cancelled'')]"
    by (simp add: cancelled_payload_def sample_call_def)
  then show ?thesis
    by (simp add: call_events_delivered_twice[OF sample_listening] sample_fields sample_projections)
qed

section \<open>The catch-all listener beside the named listeners\<close>

text \<open>
  Claim C5 asks that the catch-all listener and the named listener together never call a
  subscriber more than once for one \<^verbatim>\<open>incoming_call\<close> or \<^verbatim>\<open>call_cancelled\<close> event.
  With the permission granted and one subscriber registered, one \<^verbatim>\<open>incoming_call\<close> event
  calls that subscriber twice, and so does one \<^verbatim>\<open>call_cancelled\<close> event.
\<close>

theorem fallback_listener_double_delivery:
  "call_calls (trace (snd (deliver sample_env (InIncomingCall (Some sample_call)) sample_provider))) =
     [(7, Some sample_call), (7, Some sample_call)]
   \<and> length (call_calls (trace (snd (deliver sample_env (InCallCancelled (Some sample_call)) sample_provider)))) = 2"
  by (simp add: call_events_delivered_twice[OF sample_listening] env_facts sample_fields sample_projections)

section \<open>Subscribing, unsubscribing and publishing\<close>

text \<open>
  Claim C6. Along any sequence of subscriptions, calls of unsubscribe capabilities and
  published events, in either category, a callback is called exactly once for each event
  published while it was registered and for no other event; after its capability has been
  called it receives nothing until it is subscribed again; and subscribing a callback that
  is already registered changes nothing, so it is never called twice for one event. (The
  subscriber sets of the provider start empty and stay free of duplicates.)
\<close>

theorem router_delivers_while_registered:
  "(distinct (messageSubscribers p) \<longrightarrow>
      messages_received c (router_run E ops p) =
        messages_received c p @ messages_while_registered c (c \<in> set (messageSubscribers p)) ops)
   \<and> (distinct (callSubscribers p) \<longrightarrow>
      calls_received c (router_run E ops p) =
        calls_received c p @ calls_while_registered E c (c \<in> set (callSubscribers p)) ops)
   \<and> (distinct (messageSubscribers p) \<and> SubscribeMessages c \<notin> set ops \<longrightarrow>
      messages_received c (router_run E (UnsubscribeMessages c # ops) p) = messages_received c p)
   \<and> (distinct (callSubscribers p) \<and> SubscribeCalls c \<notin> set ops \<longrightarrow>
      calls_received c (router_run E (UnsubscribeCalls c # ops) p) = calls_received c p)
   \<and> messageSubscribers (snd (subscribeToMessages c (snd (subscribeToMessages c p)))) =
       messageSubscribers (snd (subscribeToMessages c p))
   \<and> callSubscribers (snd (subscribeToIncomingCalls c (snd (subscribeToIncomingCalls c p)))) =
       callSubscribers (snd (subscribeToIncomingCalls c p))
   \<and> (distinct (messageSubscribers p) \<longrightarrow> distinct (messageSubscribers (router_run E ops p)))
   \<and> (distinct (callSubscribers p) \<longrightarrow> distinct (callSubscribers (router_run E ops p)))"
proof -
  have inv: "distinct (messageSubscribers q) \<longrightarrow> distinct (messageSubscribers (router_run E ops q))"
    "distinct (callSubscribers q) \<longrightarrow> distinct (callSubscribers (router_run E ops q))" for q
    by (induction ops arbitrary: q) (simp_all add: router_run_def router_step_distinct)
  show ?thesis
    by (simp add: messages_run calls_run nothing_while_unregistered inv
        subscribeToMessages_def subscribeToIncomingCalls_def Set_add_idem)
qed

text \<open>Registering callback 7 twice, publishing, calling the capability once, publishing
  again: the callback has received the first event once and the second not at all.\<close>

theorem router_delivers_while_registered_witness:
  "distinct (messageSubscribers initial_provider)
   \<and> distinct (callSubscribers initial_provider)
   \<and> messages_received 7 (router_run sample_env
        [SubscribeMessages 7, SubscribeMessages 7, PublishMessage sample_message,
         UnsubscribeMessages 7, PublishMessage sample_message] initial_provider) = [sample_message]
   \<and> calls_received 7 (router_run sample_env
        [SubscribeCalls 7, SubscribeCalls 7, PublishIncomingCall (Some sample_call),
         UnsubscribeCalls 7, PublishCallCancelled (Some sample_call)] initial_provider) =
       [Some sample_call]"
proof -
  have init: "messageSubscribers initial_provider = []" "callSubscribers initial_provider = []"
    "messages_received 7 initial_provider = []" "calls_received 7 initial_provider = []"
    by (simp_all add: initial_provider_def messages_received_def calls_received_def
        message_calls_def call_calls_def)
  show ?thesis
    using router_delivers_while_registered[of initial_provider 7 sample_env
        "[SubscribeMessages 7, SubscribeMessages 7, PublishMessage sample_message,
          UnsubscribeMessages 7, PublishMessage sample_message]"]
      router_delivers_while_registered[of initial_provider 7 sample_env
        "[SubscribeCalls 7, SubscribeCalls 7, PublishIncomingCall (Some sample_call),
          UnsubscribeCalls 7, PublishCallCancelled (Some sample_call)]"]
    by (simp add: init env_facts)
qed

section \<open>The credential and the handshake\<close>

text \<open>
  Claim C7. Normalising the credential is a function of the string alone: the prefix
  \<^verbatim>\<open>Bearer \<close> is removed, a string without it is passed on unchanged, and the token of the
  handshake (the \<^verbatim>\<open>auth.token\<close> handed to \<^verbatim>\<open>io\<close> when a connection is made, that is,
  for a non-empty credential) is the normalised string.
\<close>

theorem token_normalised:
  "processedToken (''Bearer '' @ rest) = rest
   \<and> (\<not> startsWith userToken ''Bearer '' \<longrightarrow> processedToken userToken = userToken)
   \<and> (userToken \<noteq> [] \<longrightarrow>
        (\<exists>s. socketRef (initSocket E (Some userToken) p) = Some s
             \<and> auth_token (opts s) = processedToken userToken)
        \<and> trace (initSocket E (Some userToken) p) =
            trace p @ [IoOpen (BASE_URL E) (socket_options userToken)]
        \<and> auth_token (socket_options userToken) = processedToken userToken)"
  by (simp add: processedToken_def startsWith_def substring_def initSocket_def Let_def
      socket_options_def log_effect_def)

theorem token_normalised_witness:
  "processedToken ''Bearer abc'' = ''abc''
   \<and> processedToken ''U_123'' = ''U_123''
   \<and> (\<exists>s. socketRef (initSocket sample_env (Some ''Bearer abc'') initial_provider) = Some s
          \<and> auth_token (opts s) = ''abc'')"
  using token_normalised[of "''abc''" "''U_123''" sample_env initial_provider]
    token_normalised[of "''abc''" "''Bearer abc''" sample_env initial_provider]
  by (simp add: startsWith_def)

section \<open>The reconnection policy\<close>

text \<open>
  Claim C8. Every connection is created with reconnection switched on, 30 attempts, a
  first delay of 100 ms, a largest delay of 800 ms, a randomisation factor of 0.1 and a
  connection timeout of 3000 ms.
\<close>

theorem reconnection_policy:
  "userToken \<noteq> [] \<Longrightarrow>
     (\<exists>s. socketRef (initSocket E (Some userToken) p) = Some s \<and> opts s = socket_options userToken)
     \<and> trace (initSocket E (Some userToken) p) = trace p @ [IoOpen (BASE_URL E) (socket_options userToken)]
     \<and> reconnection (socket_options userToken)
     \<and> reconnectionAttempts (socket_options userToken) = 30
     \<and> reconnectionDelay (socket_options userToken) = 100
     \<and> reconnectionDelayMax (socket_options userToken) = 800
     \<and> randomizationFactor (socket_options userToken) = 1 / 10
     \<and> timeout (socket_options userToken) = 3000"
  by (simp add: initSocket_def Let_def socket_options_def log_effect_def)

theorem reconnection_policy_witness:
  "(\<exists>s. socketRef (initSocket sample_env (Some ''Bearer abc'') initial_provider) = Some s
        \<and> reconnectionAttempts (opts s) = 30 \<and> reconnectionDelay (opts s) = 100
        \<and> reconnectionDelayMax (opts s) = 800 \<and> randomizationFactor (opts s) = 1 / 10
        \<and> timeout (opts s) = 3000 \<and> reconnection (opts s))"
  using reconnection_policy[of "''Bearer abc''" sample_env initial_provider]
  by auto

section \<open>The backlog request after a connection\<close>

text \<open>
  Claim C9. A \<^verbatim>\<open>connect\<close> event emits nothing by itself; it schedules one timer, 1000 ms
  ahead, whose callback emits \<^verbatim>\<open>get_offline_messages\<close> without arguments. So, compared
  with the same provider without that event, the number of backlog requests on the wire is
  the same before 1000 ms have passed and exactly one higher from then on.
\<close>

theorem offline_backlog_request:
  "listening p \<Longrightarrow>
     fst (deliver E InConnect p) = Normal
     \<and> trace (snd (deliver E InConnect p)) = trace p
     \<and> timers (snd (deliver E InConnect p)) = timers p @ [(clock p + 1000, EmitGetOfflineMessages)]
     \<and> run_timer_action EmitGetOfflineMessages q = log_effect (Emit ''get_offline_messages'' []) q
     \<and> offline_requests (trace (advance dt (snd (deliver E InConnect p)))) =
         offline_requests (trace (advance dt p)) + (if 1000 \<le> dt then 1 else 0)"
proof -
  assume "listening p"
  then obtain s where s: "socketRef p = Some s" "listeners s = bound_listeners"
    using listeningD by blast
  show ?thesis
    by (simp add: deliver_connect[OF s] advance_count run_timer_action_def)
qed

theorem offline_backlog_request_witness:
  "listening sample_provider
   \<and> emits (trace (snd (deliver sample_env InConnect sample_provider))) = []
   \<and> offline_requests (trace (advance 999 (snd (deliver sample_env InConnect sample_provider)))) = 0
   \<and> offline_requests (trace (advance 1000 (snd (deliver sample_env InConnect sample_provider)))) = 1
   \<and> offline_requests (trace (advance 5000 (snd (deliver sample_env InConnect sample_provider)))) = 1"
proof -
  have base: "offline_requests (trace (advance dt sample_provider)) = 0" for dt
    by (simp add: advance_count sample_fields sample_projections)
  have em: "emits (trace sample_provider) = []"
    by (rule sample_projections)
  show ?thesis
    using offline_backlog_request[OF sample_listening, of sample_env sample_provider 999]
      offline_backlog_request[OF sample_listening, of sample_env sample_provider 1000]
      offline_backlog_request[OF sample_listening, of sample_env sample_provider 5000]
    by (simp add: sample_listening base em)
qed

section \<open>The public interface without a connection\<close>

text \<open>
  Claim C10. While the socket is absent or the provider is not connected, \<^verbatim>\<open>sendMessage\<close>,
  \<^verbatim>\<open>joinConversation\<close>, \<^verbatim>\<open>leaveConversation\<close> and \<^verbatim>\<open>rejectCall\<close> complete normally,
  emit nothing and leave the connection flag, the unread counter, the subscriber sets and
  the socket as they are; all they may do is write a warning.
\<close>

theorem disconnected_calls_are_noops:
  "socketRef p = None \<or> \<not> isConnected p \<Longrightarrow>
     sendMessage messageData p = (Normal, log_effect (ConsoleWarn CannotSendMessage) p)
     \<and> joinConversation conversation p = (Normal, log_effect (ConsoleWarn CannotJoinConversation) p)
     \<and> leaveConversation conversation p = (Normal, p)
     \<and> rejectCall callId recipientId conversation' p = (Normal, log_effect (ConsoleWarn CannotRejectCall) p)
     \<and> emits (trace (log_effect (ConsoleWarn w) p)) = emits (trace p)
     \<and> isConnected (log_effect (ConsoleWarn w) p) = isConnected p
     \<and> unreadMessageCount (log_effect (ConsoleWarn w) p) = unreadMessageCount p
     \<and> messageSubscribers (log_effect (ConsoleWarn w) p) = messageSubscribers p
     \<and> callSubscribers (log_effect (ConsoleWarn w) p) = callSubscribers p
     \<and> socketRef (log_effect (ConsoleWarn w) p) = socketRef p"
  by (auto simp: sendMessage_def joinConversation_def leaveConversation_def rejectCall_def
      log_effect_def emits_def)

theorem disconnected_calls_are_noops_witness:
  "socketRef initial_provider = None
   \<and> \<not> isConnected sample_provider
   \<and> sendMessage sample_call initial_provider =
       (Normal, log_effect (ConsoleWarn CannotSendMessage) initial_provider)
   \<and> leaveConversation ''conv1'' initial_provider = (Normal, initial_provider)
   \<and> emits (trace (snd (rejectCall ''c1'' ''u2'' None initial_provider))) = []
   \<and> socketRef sample_provider \<noteq> None
   \<and> emits (trace (snd (joinConversation ''conv1'' sample_provider))) = []"
proof -
  have none: "socketRef initial_provider = None" "emits (trace initial_provider) = []"
    by (simp_all add: initial_provider_def emits_def)
  have off: "\<not> isConnected sample_provider" "socketRef sample_provider \<noteq> None"
    by (simp_all add: sample_provider_def subscribeToIncomingCalls_def subscribeToMessages_def
        initSocket_def Let_def initial_provider_def log_effect_def)
  show ?thesis
    using disconnected_calls_are_noops[of initial_provider sample_call "''conv1''" "''c1''" "''u2''" None]
      disconnected_calls_are_noops[of sample_provider sample_call "''conv1''" "''c1''" "''u2''" None]
    by (simp add: none off sample_projections)
qed

end
